theory Spec2Isabelle
  imports Complex_Main
begin

section \<open>Conventions of the embedding\<close>

text \<open>
  The controller is Python. Its unbounded integers are \<^typ>\<open>int\<close>, its strings are
  \<^typ>\<open>string\<close>, and its lists are HOL lists. Durations, probabilities and time stamps
  are Python floats; they are embedded as \<^typ>\<open>real\<close>, so every statement below is about
  the exact arithmetic the code writes down and not about binary rounding.

  An exception of the source is a value of \<open>py_error\<close>; a function that can raise
  returns \<open>py_error + 'a\<close>. A \<^verbatim>\<open>while True\<close> loop that may spin forever is a partial
  function in the option monad, where \<open>None\<close> stands for "never returns".
\<close>

datatype py_error = IndexError | ZeroDivisionError | UnboundLocalError

subsection \<open>The random module\<close>

text \<open>
  The generator is an explicit value: \<open>uniform g n\<close> is what the \<open>n\<close>-th draw returns when
  it is a call of \<^verbatim>\<open>random.random()\<close>, \<open>index g n\<close> is the raw integer behind the
  \<open>n\<close>-th draw when it is a call of \<^verbatim>\<open>random.choice\<close>, and \<open>drawn g\<close> counts the draws made
  so far. Every run of the program is the run of the model on some generator.
\<close>

record rng =
  uniform :: "nat \<Rightarrow> real"
  index :: "nat \<Rightarrow> nat"
  drawn :: nat

definition random_random :: "rng \<Rightarrow> real \<times> rng" where
  "random_random g = (uniform g (drawn g), g\<lparr>drawn := Suc (drawn g)\<rparr>)"

definition random_choice :: "'a list \<Rightarrow> rng \<Rightarrow> py_error + 'a \<times> rng" where
  "random_choice seq g =
     (if seq = [] then Inl IndexError
      else Inr (seq ! (index g (drawn g) mod length seq), g\<lparr>drawn := Suc (drawn g)\<rparr>))"

section \<open>calculate\_frame\_periods.py\<close>

text \<open>Python's \<^verbatim>\<open>round\<close> on a float: to the nearest integer, a tie going to the even one.\<close>

definition py_round :: "real \<Rightarrow> int" where
  "py_round x =
     (let f = \<lfloor>x\<rfloor>; d = x - of_int f
      in if d < 1 / 2 then f
         else if 1 / 2 < d then f + 1
         else if even f then f else f + 1)"

definition get_nearest_frame :: "real \<Rightarrow> real \<Rightarrow> int" where
  "get_nearest_frame desired_duration_sec fps =
     (if fps \<le> 0 then 0
      else if desired_duration_sec < 0 then 0
      else (let ideal_frames = desired_duration_sec * fps;
                n_frames = py_round ideal_frames
            in n_frames))"

section \<open>config.py\<close>

definition TARGET_LETTER :: string where
  "TARGET_LETTER = ''X''"

definition DISTRACTOR_LETTERS :: "string list" where
  "DISTRACTOR_LETTERS = [''Z'', ''L'', ''N'', ''T'']"

definition TARGET_PROB_INCREASE_THRESHOLD :: int where
  "TARGET_PROB_INCREASE_THRESHOLD = - 4"


section \<open>plan\_blocks\_and\_sessions.py\<close>

text \<open>
  A block is a list of the strings \<^verbatim>\<open>"s"\<close> and \<^verbatim>\<open>"o"\<close>. The loop of \<^verbatim>\<open>create_block\<close>
  draws until a draw falls below \<open>chance_of_oddball\<close>.
\<close>

partial_function (option) create_block_loop ::
  "real \<Rightarrow> string list \<Rightarrow> rng \<Rightarrow> (string list \<times> rng) option" where
  "create_block_loop chance_of_oddball block g =
     (case random_random g of (rand, g') \<Rightarrow>
        if rand < chance_of_oddball then Some (block @ [''o''], g')
        else create_block_loop chance_of_oddball (block @ [''s'']) g')"

definition create_block :: "int \<Rightarrow> real \<Rightarrow> rng \<Rightarrow> (string list \<times> rng) option" where
  "create_block min_standards chance_of_oddball g =
     create_block_loop chance_of_oddball (replicate (nat min_standards) ''s'') g"





section \<open>block\_handler.py: the attention stimulus selector\<close>

type_synonym colour = "real \<times> real \<times> real"

text \<open>
  The fixation object is a PsychoPy stimulus; the selector reads and writes its
  \<^verbatim>\<open>.color\<close> and \<^verbatim>\<open>.text\<close> attributes and nothing else.
\<close>

record fixation =
  obj_color :: colour
  obj_text :: string

text \<open>Lines 23 to 28 of \<^verbatim>\<open>get_letter\<close>: the candidate list before the previous letter is avoided.\<close>

definition possible_choices :: "bool \<Rightarrow> string \<Rightarrow> string list \<Rightarrow> int \<Rightarrow> int \<Rightarrow> string list" where
  "possible_choices allow_target target_letter distractor_letters
       increase_target_prob_threshold delay_countdown =
     (if allow_target
      then (if delay_countdown \<le> increase_target_prob_threshold
            then (distractor_letters @ [target_letter]) @ [target_letter]
            else distractor_letters @ [target_letter])
      else distractor_letters)"

text \<open>
  \<^verbatim>\<open>list.remove\<close> deletes the first occurrence, which is \<^const>\<open>remove1\<close>;
  \<^verbatim>\<open>avoid_letter\<close> defaults to \<^verbatim>\<open>None\<close>, which is in no list of letters.
\<close>

definition get_letter ::
  "bool \<Rightarrow> string \<Rightarrow> string list \<Rightarrow> int \<Rightarrow> int \<Rightarrow> string option \<Rightarrow> rng
     \<Rightarrow> py_error + string \<times> rng" where
  "get_letter allow_target target_letter distractor_letters increase_target_prob_threshold
       delay_countdown avoid_letter g =
     (let possible = possible_choices allow_target target_letter distractor_letters
                       increase_target_prob_threshold delay_countdown;
          temp_choices = possible;
          possible = (case avoid_letter of
                        None \<Rightarrow> possible
                      | Some a \<Rightarrow> if a \<in> set temp_choices then remove1 a temp_choices
                                  else possible)
      in random_choice possible g)"

definition determine_attention_stimulus ::
  "string \<Rightarrow> int \<Rightarrow> int list \<Rightarrow> fixation \<Rightarrow> colour \<Rightarrow> colour \<Rightarrow> real \<Rightarrow> string
     \<Rightarrow> string list \<Rightarrow> int \<Rightarrow> int \<Rightarrow> int \<Rightarrow> int \<Rightarrow> rng
     \<Rightarrow> py_error + (fixation \<times> int \<times> int \<times> bool \<times> string) \<times> rng" where
  "determine_attention_stimulus condition trial_idx acceptable_target_idxs fixation_obj
       norm_colour att_colour colour_change_chance target_letter distractor_letters
       n_attention_targets defined_response_delay delay_countdown prob_threshold g =
     (let decided =
        (if condition = ''attend'' then
           (if trial_idx \<notin> set acceptable_target_idxs
            then Inr (fixation_obj\<lparr>obj_color := norm_colour\<rparr>,
                      n_attention_targets, delay_countdown, False, '''', g)
            else if delay_countdown > 0
            then Inr (fixation_obj\<lparr>obj_color := norm_colour\<rparr>,
                      n_attention_targets, delay_countdown, False, '''', g)
            else (case random_random g of (r, g') \<Rightarrow>
                    if colour_change_chance > r
                    then Inr (fixation_obj\<lparr>obj_color := att_colour\<rparr>,
                              n_attention_targets + 1, defined_response_delay + 1, True, '''', g')
                    else Inr (fixation_obj\<lparr>obj_color := norm_colour\<rparr>,
                              n_attention_targets, delay_countdown, False, '''', g')))
         else if condition = ''divert'' then
           (case (if trial_idx \<notin> set acceptable_target_idxs
                  then get_letter False target_letter distractor_letters prob_threshold
                         delay_countdown (Some (obj_text fixation_obj)) g
                  else if delay_countdown \<ge> 0
                  then get_letter False target_letter distractor_letters prob_threshold
                         delay_countdown (Some (obj_text fixation_obj)) g
                  else get_letter True target_letter distractor_letters prob_threshold
                         delay_countdown (Some (obj_text fixation_obj)) g) of
              Inl e \<Rightarrow> Inl e
            | Inr (letter, g') \<Rightarrow>
                if letter = target_letter
                then Inr (fixation_obj\<lparr>obj_text := letter\<rparr>,
                          n_attention_targets + 1, 2 + 1, True, letter, g')
                else Inr (fixation_obj\<lparr>obj_text := letter\<rparr>,
                          n_attention_targets, delay_countdown, False, letter, g'))
         else Inr (fixation_obj, n_attention_targets, delay_countdown, False, '''', g))
      in case decided of
           Inl e \<Rightarrow> Inl e
         | Inr (fixation_obj, n_attention_targets, delay_countdown, is_att_target,
                letter_used, g') \<Rightarrow>
             Inr ((fixation_obj, n_attention_targets, delay_countdown - 1, is_att_target,
                   letter_used), g'))"

section \<open>trial\_logic.py: the earlier letter rule\<close>

definition tl_get_letter ::
  "bool \<Rightarrow> string option \<Rightarrow> string \<Rightarrow> string list \<Rightarrow> rng \<Rightarrow> py_error + string \<times> rng" where
  "tl_get_letter allow_targets avoid_letter target_letter distractor_letters g =
     (let possible = (if allow_targets then distractor_letters @ [target_letter]
                      else distractor_letters);
          temp_choices = possible;
          reset = (if length possible = 0
                   then (if allow_targets then distractor_letters @ [target_letter]
                         else distractor_letters)
                   else possible);
          possible =
            (case avoid_letter of
               None \<Rightarrow> reset
             | Some a \<Rightarrow>
                 if a \<in> set temp_choices
                 then (if length temp_choices > 1 then remove1 a temp_choices else possible)
                 else reset)
      in if possible = [] then Inr (''?'', g) else random_choice possible g)"

section \<open>run\_practice.py: the practice gate\<close>


section \<open>block\_handler.py: the block runner\<close>

subsection \<open>What the runner shows, sends and logs\<close>

text \<open>
  A message to the eye tracker is kept as its identifier and the fields that the format
  string puts into it: the session, block and trial numbers, the time stamp, and the named
  values in the order they appear.
\<close>

record body =
  ids :: "int list"
  stamp :: "real option"
  attrs :: "(string \<times> string) list"

datatype 's event =
    Draw_stim 's
  | Draw_fixation fixation
  | Flip real
  | Send_message string body
  | Send_variable string body
  | Log_info string body
  | Log_error string

definition msg_eyetracker :: "string \<Rightarrow> body \<Rightarrow> bool \<Rightarrow> bool \<Rightarrow> 's event list" where
  "msg_eyetracker msg_identifier message log_msg create_var =
     [Send_message msg_identifier message]
     @ (if log_msg then [Log_info msg_identifier message] else [])
     @ (if create_var then [Send_variable msg_identifier message] else [])"

subsection \<open>What the runner is given\<close>

text \<open>
  The window, the tracker and the keyboard answer once per frame: the recording status,
  the time of the flip, and the keys pressed since the last poll. \<open>clock\<close> lists the
  readings of the monotonic clock taken outside the frame loops. \<^verbatim>\<open>pylink.TRIAL_OK\<close> is 0.
\<close>

record frame_input =
  recording :: int
  flip_time :: real
  key_events :: "(string \<times> real) list"

record display =
  frames :: "nat \<Rightarrow> frame_input"
  clock :: "nat \<Rightarrow> real"

definition TRIAL_OK :: int where
  "TRIAL_OK = 0"

record 's block_args =
  block :: "string list"
  condition :: string
  norm_colour :: colour
  att_colour :: colour
  rare_odd_threshold :: real
  standard_stim_obj :: 's
  common_odd_obj :: 's
  rare_odd_obj :: 's
  standard_stim_name :: string
  common_odd_name :: string
  rare_odd_name :: string
  attention_frames :: int
  main_stim_frames :: int
  interim_frames :: int
  colour_change_chance :: real
  target_letter :: string
  distractor_letters :: "string list"
  defined_response_delay :: int
  prob_threshold :: int
  session_counter :: int
  block_counter :: int
  practice :: bool

text \<open>
  The variables of \<^verbatim>\<open>run_block\<close> that change while it runs. \<open>trial_stim\<close> and
  \<open>oddball_name\<close> are unbound until a trial of the matching type binds them.
\<close>

record 's block_state =
  fixation_obj :: fixation
  n_attention_targets :: int
  n_attention_responses :: int
  delay_countdown :: int
  keypress_times :: "real list"
  trial_stim :: "'s option"
  oddball_name :: "string option"
  gen :: rng
  frame_no :: nat
  clock_no :: nat
  trace :: "'s event list"

definition emit :: "'s event list \<Rightarrow> 's block_state \<Rightarrow> 's block_state" where
  "emit evs st = st\<lparr>trace := trace st @ evs\<rparr>"

definition then_do :: "py_error + 'a \<Rightarrow> ('a \<Rightarrow> py_error + 'b) \<Rightarrow> py_error + 'b" where
  "then_do r f = (case r of Inl e \<Rightarrow> Inl e | Inr x \<Rightarrow> f x)"

text \<open>A \<^verbatim>\<open>for\<close> loop whose body may raise: the first exception ends it.\<close>

fun for_each :: "'a list \<Rightarrow> ('a \<Rightarrow> 'st \<Rightarrow> py_error + 'st) \<Rightarrow> 'st \<Rightarrow> py_error + 'st" where
  "for_each [] body st = Inr st"
| "for_each (x # xs) body st =
     (case body x st of Inl e \<Rightarrow> Inl e | Inr st' \<Rightarrow> for_each xs body st')"

definition trial_ids :: "'s block_args \<Rightarrow> int \<Rightarrow> int list" where
  "trial_ids a trial_counter = [session_counter a + 1, block_counter a + 1, trial_counter + 1]"

text \<open>The name the format strings ask for: \<^verbatim>\<open>standard_stim_name if trial_type == 's' else oddball_name\<close>.\<close>

definition stim_name :: "'s block_args \<Rightarrow> string \<Rightarrow> 's block_state \<Rightarrow> py_error + string" where
  "stim_name a trial_type st =
     (if trial_type = ''s'' then Inr (standard_stim_name a)
      else (case oddball_name st of None \<Rightarrow> Inl UnboundLocalError | Some n \<Rightarrow> Inr n))"

subsection \<open>Keys\<close>

definition handle_key ::
  "'s block_args \<Rightarrow> int \<Rightarrow> string \<times> real \<Rightarrow> 's block_state \<Rightarrow> 's block_state" where
  "handle_key a trial_counter key st =
     (case key of (key_name, key_press_time) \<Rightarrow>
        if key_name = ''space''
        then emit (if \<not> practice a
                   then msg_eyetracker ''KEY_RESPONSE''
                          \<lparr>ids = trial_ids a trial_counter, stamp = Some key_press_time,
                           attrs = [(''Key'', key_name)]\<rparr> True False
                   else [])
               (st\<lparr>keypress_times := keypress_times st @ [key_press_time],
                   n_attention_responses := n_attention_responses st + 1\<rparr>)
        else emit (if \<not> practice a
                   then msg_eyetracker ''UNEXPECTED_KEY_RESPONSE''
                          \<lparr>ids = trial_ids a trial_counter, stamp = Some key_press_time,
                           attrs = [(''Key'', key_name)]\<rparr> True False
                   else [])
               (st\<lparr>keypress_times := keypress_times st @ [key_press_time]\<rparr>))"

definition handle_keys ::
  "'s block_args \<Rightarrow> int \<Rightarrow> (string \<times> real) list \<Rightarrow> 's block_state \<Rightarrow> 's block_state" where
  "handle_keys a trial_counter keys st = fold (handle_key a trial_counter) keys st"

subsection \<open>Frames\<close>

definition check_recording :: "'s block_args \<Rightarrow> frame_input \<Rightarrow> 's block_state \<Rightarrow> 's block_state" where
  "check_recording a inp st =
     (if \<not> practice a \<and> recording inp \<noteq> TRIAL_OK
      then emit [Log_error ''Eye-tracker recording has stopped unexpectedly''] st
      else st)"

definition fixation_onset :: "'s block_args \<Rightarrow> int \<Rightarrow> string \<Rightarrow> real \<Rightarrow> bool \<Rightarrow> string
     \<Rightarrow> (string \<times> string) list \<Rightarrow> 's event list" where
  "fixation_onset a trial_counter trial_type current_flip_time is_att_target att_letter extra =
     msg_eyetracker ''FIXATION_STIM_ONSET''
       \<lparr>ids = trial_ids a trial_counter, stamp = Some current_flip_time,
        attrs = [(''Type'', trial_type),
                 (''Attention_type'', if is_att_target then ''Target'' else ''Normal''),
                 (''Letter'', if att_letter \<noteq> '''' then att_letter else ''None'')] @ extra\<rparr>
       True False"

definition main_stim_msg :: "'s block_args \<Rightarrow> string \<Rightarrow> int \<Rightarrow> string \<Rightarrow> real \<Rightarrow> string
     \<Rightarrow> 's event list" where
  "main_stim_msg a msg_identifier trial_counter trial_type current_flip_time name =
     msg_eyetracker msg_identifier
       \<lparr>ids = trial_ids a trial_counter, stamp = Some current_flip_time,
        attrs = [(''Type'', trial_type), (''Stim'', name)]\<rparr> True False"

definition stimulus_frame ::
  "'s block_args \<Rightarrow> display \<Rightarrow> int \<Rightarrow> string \<Rightarrow> bool \<Rightarrow> string \<Rightarrow> int \<Rightarrow> 's block_state
     \<Rightarrow> py_error + 's block_state" where
  "stimulus_frame a d trial_counter trial_type is_att_target att_letter frameN st0 =
     (let inp = frames d (frame_no st0);
          st1 = check_recording a inp st0
      in then_do (if frameN < main_stim_frames a
                  then (case trial_stim st1 of
                          None \<Rightarrow> Inl UnboundLocalError
                        | Some s \<Rightarrow> Inr (emit [Draw_stim s] st1))
                  else Inr st1)
          (\<lambda>st2.
            let st3 = emit [Draw_fixation (fixation_obj st2), Flip (flip_time inp)] st2;
                current_flip_time = flip_time inp
            in then_do (if \<not> practice a \<and> frameN = 0
                        then then_do (stim_name a trial_type st3)
                               (\<lambda>name. Inr (emit
                                  (main_stim_msg a ''MAIN_STIM_ONSET'' trial_counter trial_type
                                     current_flip_time name
                                   @ fixation_onset a trial_counter trial_type current_flip_time
                                       is_att_target att_letter []) st3))
                        else Inr st3)
                (\<lambda>st4.
                  let st5 = handle_keys a trial_counter (key_events inp) st4
                  in then_do (if \<not> practice a \<and> frameN = main_stim_frames a
                              then then_do (stim_name a trial_type st5)
                                     (\<lambda>name. Inr (emit
                                        (main_stim_msg a ''MAIN_STIM_OFFSET'' trial_counter
                                           trial_type current_flip_time name) st5))
                              else Inr st5)
                      (\<lambda>st6. Inr (st6\<lparr>frame_no := Suc (frame_no st6)\<rparr>)))))"

definition interim_frame ::
  "'s block_args \<Rightarrow> display \<Rightarrow> int \<Rightarrow> string \<Rightarrow> bool \<Rightarrow> string \<Rightarrow> int \<Rightarrow> 's block_state
     \<Rightarrow> py_error + 's block_state" where
  "interim_frame a d trial_counter trial_type is_att_target att_letter frameN st0 =
     (let inp = frames d (frame_no st0);
          st1 = check_recording a inp st0;
          st2 = emit [Draw_fixation (fixation_obj st1), Flip (flip_time inp)] st1;
          current_flip_time = flip_time inp;
          st3 = (if \<not> practice a \<and> frameN = 0
                 then emit (fixation_onset a trial_counter trial_type current_flip_time
                              is_att_target att_letter [(''FrameN'', ''0'')]) st2
                 else st2);
          st4 = handle_keys a trial_counter (key_events inp) st3
      in Inr (st4\<lparr>frame_no := Suc (frame_no st4)\<rparr>))"

subsection \<open>Trials and blocks\<close>

definition select_stimulus ::
  "'s block_args \<Rightarrow> int \<Rightarrow> int list \<Rightarrow> 's block_state
     \<Rightarrow> py_error + 's block_state \<times> bool \<times> string" where
  "select_stimulus a trial_counter acceptable_target_idxs st =
     (case determine_attention_stimulus (condition a) trial_counter acceptable_target_idxs
             (fixation_obj st) (norm_colour a) (att_colour a) (colour_change_chance a)
             (target_letter a) (distractor_letters a) (n_attention_targets st)
             (defined_response_delay a) (delay_countdown st) (prob_threshold a) (gen st) of
        Inl e \<Rightarrow> Inl e
      | Inr ((fo, n, dc, is_att_target, att_letter), g') \<Rightarrow>
          Inr (st\<lparr>fixation_obj := fo, n_attention_targets := n, delay_countdown := dc,
                  gen := g'\<rparr>, is_att_target, att_letter))"

definition choose_trial_stim :: "'s block_args \<Rightarrow> string \<Rightarrow> 's block_state \<Rightarrow> 's block_state" where
  "choose_trial_stim a trial_type st =
     (if trial_type = ''s'' then st\<lparr>trial_stim := Some (standard_stim_obj a)\<rparr>
      else if trial_type = ''o'' then
        (case random_random (gen st) of (r, g') \<Rightarrow>
           if r > rare_odd_threshold a
           then st\<lparr>trial_stim := Some (rare_odd_obj a), oddball_name := Some (rare_odd_name a),
                   gen := g'\<rparr>
           else st\<lparr>trial_stim := Some (common_odd_obj a),
                   oddball_name := Some (common_odd_name a), gen := g'\<rparr>)
      else emit [Log_error ''Unknown trial type defined in the block''] st)"

text \<open>A marker stamped with a reading of the monotonic clock; silent in practice.\<close>

definition clock_marker ::
  "'s block_args \<Rightarrow> display \<Rightarrow> string \<Rightarrow> int \<Rightarrow> string \<Rightarrow> bool \<Rightarrow> 's block_state
     \<Rightarrow> 's block_state" where
  "clock_marker a d msg_identifier trial_counter trial_type create_var st =
     (if \<not> practice a
      then (emit (msg_eyetracker msg_identifier
                    \<lparr>ids = trial_ids a trial_counter, stamp = Some (clock d (clock_no st)),
                     attrs = [(''Type'', trial_type)]\<rparr> True create_var) st)
             \<lparr>clock_no := Suc (clock_no st)\<rparr>
      else st)"

definition stimulus_phase ::
  "'s block_args \<Rightarrow> display \<Rightarrow> int \<Rightarrow> string \<Rightarrow> bool \<Rightarrow> string \<Rightarrow> 's block_state
     \<Rightarrow> py_error + 's block_state" where
  "stimulus_phase a d trial_counter trial_type is_att_target att_letter st =
     for_each [0 .. attention_frames a - 1]
       (stimulus_frame a d trial_counter trial_type is_att_target att_letter) st"

definition interim_subloop ::
  "'s block_args \<Rightarrow> display \<Rightarrow> int \<Rightarrow> string \<Rightarrow> int list \<Rightarrow> int \<Rightarrow> 's block_state
     \<Rightarrow> py_error + 's block_state" where
  "interim_subloop a d trial_counter trial_type acceptable_target_idxs interim_subloop_no st =
     then_do (select_stimulus a trial_counter acceptable_target_idxs st)
       (\<lambda>(st1, is_att_target, att_letter).
          for_each [0 .. attention_frames a - 1]
            (interim_frame a d trial_counter trial_type is_att_target att_letter) st1)"

text \<open>The interim period of a trial: the attention stimulus alone, chunk after chunk.\<close>

definition interim_period ::
  "'s block_args \<Rightarrow> display \<Rightarrow> int \<Rightarrow> string \<Rightarrow> int list \<Rightarrow> 's block_state
     \<Rightarrow> py_error + 's block_state" where
  "interim_period a d trial_counter trial_type acceptable_target_idxs st5 =
     (let st6 = clock_marker a d ''INTERIM_START'' trial_counter trial_type False st5
      in if attention_frames a = 0 then Inl ZeroDivisionError
         else
           (let num_of_subloops = interim_frames a div attention_frames a
            in then_do
                 (for_each [0 .. num_of_subloops - 1]
                    (interim_subloop a d trial_counter trial_type acceptable_target_idxs) st6)
                 (\<lambda>st7. Inr (clock_marker a d ''INTERIM_END'' trial_counter trial_type
                                False st7))))"

definition run_trial ::
  "'s block_args \<Rightarrow> display \<Rightarrow> int \<times> string \<Rightarrow> 's block_state \<Rightarrow> py_error + 's block_state" where
  "run_trial a d trial st0 =
     (case trial of (trial_counter, trial_type) \<Rightarrow>
        let st1 = clock_marker a d ''TRIALID'' trial_counter trial_type True st0;
            st2 = st1\<lparr>keypress_times := []\<rparr>;
            acceptable_target_idxs = [1 .. int (length (block a)) - 2 - 1];
            st3 = choose_trial_stim a trial_type st2
        in then_do (select_stimulus a trial_counter acceptable_target_idxs st3)
             (\<lambda>(st4, is_att_target, att_letter).
                then_do (stimulus_phase a d trial_counter trial_type is_att_target att_letter st4)
                  (interim_period a d trial_counter trial_type acceptable_target_idxs)))"

definition run_block ::
  "'s block_args \<Rightarrow> display \<Rightarrow> fixation \<Rightarrow> int \<Rightarrow> rng \<Rightarrow> py_error + 's block_state" where
  "run_block a d fixation delay g =
     (let st0 = \<lparr>fixation_obj = fixation, n_attention_targets = 0, n_attention_responses = 0,
                 delay_countdown = delay, keypress_times = [], trial_stim = None,
                 oddball_name = None, gen = g, frame_no = 0, clock_no = 0,
                 trace = (if \<not> practice a
                          then msg_eyetracker ''BLOCK_START''
                                 \<lparr>ids = [session_counter a + 1, block_counter a + 1],
                                  stamp = None, attrs = []\<rparr> True False
                          else [])\<rparr>
      in for_each (zip [0 .. int (length (block a)) - 1] (block a)) (run_trial a d) st0)"

text \<open>What the Python function hands back to its caller.\<close>

definition returned :: "'s block_state \<Rightarrow> int \<times> int \<times> int" where
  "returned st = (n_attention_targets st, n_attention_responses st, delay_countdown st)"

subsection \<open>Reading a trace\<close>

text \<open>
  What was sent under one identifier, which stimuli were drawn, and which fixation objects
  were drawn, each in the order of the trace.
\<close>

definition sent_bodies :: "string \<Rightarrow> 's event list \<Rightarrow> body list" where
  "sent_bodies msg_identifier tr =
     concat (map (\<lambda>ev. case ev of
                          Send_message i b \<Rightarrow> (if i = msg_identifier then [b] else [])
                        | _ \<Rightarrow> []) tr)"

definition stim_draws :: "'s event list \<Rightarrow> 's list" where
  "stim_draws tr = concat (map (\<lambda>ev. case ev of Draw_stim s \<Rightarrow> [s] | _ \<Rightarrow> []) tr)"

definition fixation_draws :: "'s event list \<Rightarrow> fixation list" where
  "fixation_draws tr = concat (map (\<lambda>ev. case ev of Draw_fixation f \<Rightarrow> [f] | _ \<Rightarrow> []) tr)"

definition marker :: "body \<Rightarrow> int list \<times> real option" where
  "marker b = (ids b, stamp b)"

text \<open>
  A run of selector calls, each on the state the call before it left, as the runner makes
  them chunk after chunk. Each call is given its trial index and the eligible indices.
\<close>

fun selector_calls ::
  "'s block_args \<Rightarrow> (int \<times> int list) list \<Rightarrow> 's block_state
     \<Rightarrow> py_error + bool list \<times> 's block_state" where
  "selector_calls a [] st = Inr ([], st)"
| "selector_calls a (c # cs) st =
     (case select_stimulus a (fst c) (snd c) st of
        Inl e \<Rightarrow> Inl e
      | Inr (st', is_att_target, att_letter) \<Rightarrow>
          (case selector_calls a cs st' of
             Inl e \<Rightarrow> Inl e
           | Inr (targets, st'') \<Rightarrow> Inr (is_att_target # targets, st'')))"

section \<open>Sample inputs\<close>

text \<open>
  Concrete inputs on which the definitions are run below. The sample generator answers
  0.9, 0.9, 0.1 and so on to \<^verbatim>\<open>random.random()\<close>; the other values are those of
  \<^verbatim>\<open>config.py\<close>, with frame counts small enough to follow by hand.
\<close>

definition sample_rng :: rng where
  "sample_rng =
     \<lparr>uniform = (\<lambda>n. if n mod 3 = 2 then 0.1 else 0.9), index = (\<lambda>n. n), drawn = 0\<rparr>"

definition sample_fixation :: fixation where
  "sample_fixation = \<lparr>obj_color = (- 0.5, - 0.5, - 0.5), obj_text = ''Z''\<rparr>"

definition sample_args :: "string block_args" where
  "sample_args =
     \<lparr>block = [''s'', ''s'', ''s'', ''s'', ''o''], condition = ''attend'',
      norm_colour = (- 0.5, - 0.5, - 0.5), att_colour = (0, 0, 1), rare_odd_threshold = 0.75,
      standard_stim_obj = ''standard'', common_odd_obj = ''common'', rare_odd_obj = ''rare'',
      standard_stim_name = ''fine_gabor'', common_odd_name = ''coarse_gabor'',
      rare_odd_name = ''noise_disk'',
      attention_frames = 5, main_stim_frames = 3, interim_frames = 10,
      colour_change_chance = 0.1, target_letter = ''X'',
      distractor_letters = [''Z'', ''L'', ''N'', ''T''],
      defined_response_delay = 10, prob_threshold = - 4, session_counter = 0,
      block_counter = 0, practice = False\<rparr>"

text \<open>Frame \<open>n\<close> flips at \<open>n / 100\<close> seconds; the escape key is pressed during frame 7.\<close>

definition sample_display :: display where
  "sample_display =
     \<lparr>frames = (\<lambda>n. \<lparr>recording = 0, flip_time = real n / 100,
                      key_events = (if n = 7 then [(''escape'', real n / 100 + 0.004)]
                                    else [])\<rparr>),
      clock = (\<lambda>n. real n)\<rparr>"

definition sample_state :: "string block_state" where
  "sample_state =
     \<lparr>fixation_obj = sample_fixation, n_attention_targets = 0, n_attention_responses = 0,
      delay_countdown = 0, keypress_times = [], trial_stim = None, oddball_name = None,
      gen = sample_rng\<lparr>drawn := 2\<rparr>, frame_no = 0, clock_no = 0, trace = []\<rparr>"

section \<open>Properties of the frame clock\<close>


lemma py_round_nonneg: "0 \<le> x \<Longrightarrow> 0 \<le> py_round x"
  by (auto simp: py_round_def Let_def)

lemma get_nearest_frame_nonneg: "0 \<le> get_nearest_frame d fps"
  by (simp add: get_nearest_frame_def Let_def py_round_nonneg)



section \<open>Properties of the block planner\<close>


lemma create_block_loop_shape:
  assumes "create_block_loop ch b g = Some r"
  shows "\<exists>n. fst r = b @ replicate n ''s'' @ [''o''] \<and> snd r = g\<lparr>drawn := drawn g + n + 1\<rparr>
         \<and> uniform g (drawn g + n) < ch \<and> (\<forall>j < n. \<not> uniform g (drawn g + j) < ch)"
  using assms
proof (induction ch b g r rule: create_block_loop.raw_induct [rotated 1, consumes 1, case_names step])
  case (step f ch b g r)
  show ?case
  proof (cases "uniform g (drawn g) < ch")
    case True
    with step(2) have "r = (b @ [''o''], g\<lparr>drawn := Suc (drawn g)\<rparr>)"
      by (simp add: random_random_def)
    with True show ?thesis by (intro exI [of _ 0]) simp
  next
    case False
    define h where "h = g\<lparr>drawn := Suc (drawn g)\<rparr>"
    have h: "drawn h = Suc (drawn g)" "uniform h = uniform g"
      by (simp_all add: h_def)
    from False step(2) have "f ch (b @ [''s'']) h = Some r"
      by (simp add: random_random_def h_def)
    from step(1) [OF this] obtain n where n:
      "fst r = (b @ [''s'']) @ replicate n ''s'' @ [''o'']"
      "snd r = h\<lparr>drawn := drawn h + n + 1\<rparr>"
      "uniform h (drawn h + n) < ch" "\<forall>j < n. \<not> uniform h (drawn h + j) < ch"
      by blast
    have "\<not> uniform g (drawn g + j) < ch" if "j < Suc n" for j
    proof (cases j)
      case 0 with False show ?thesis by simp
    next
      case (Suc i)
      with that n(4) h show ?thesis by auto
    qed
    moreover have "snd r = g\<lparr>drawn := drawn g + Suc n + 1\<rparr>"
      using n(2) by (simp add: h_def)
    moreover have "fst r = b @ replicate (Suc n) ''s'' @ [''o'']"
      using n(1) by (simp add: replicate_app_Cons_same)
    moreover have "uniform g (drawn g + Suc n) < ch"
      using n(3) h by simp
    ultimately show ?thesis by blast
  qed
qed

lemma create_block_loop_returns:
  "uniform g (drawn g + k) < ch \<Longrightarrow> create_block_loop ch b g \<noteq> None"
proof (induction k arbitrary: b g)
  case 0
  then show ?case by (subst create_block_loop.simps) (simp add: random_random_def)
next
  case (Suc k)
  show ?case
  proof (cases "uniform g (drawn g) < ch")
    case True
    then show ?thesis by (subst create_block_loop.simps) (simp add: random_random_def)
  next
    case False
    let ?g = "g\<lparr>drawn := Suc (drawn g)\<rparr>"
    from Suc.prems have "uniform ?g (drawn ?g + k) < ch" by simp
    from Suc.IH [OF this] have "create_block_loop ch (b @ [''s'']) ?g \<noteq> None" .
    with False show ?thesis by (subst create_block_loop.simps) (simp add: random_random_def)
  qed
qed

lemma create_block_shape:
  assumes "create_block ms ch g = Some (blk, g')"
  shows "\<exists>n. blk = replicate (nat ms + n) ''s'' @ [''o''] \<and> g' = g\<lparr>drawn := drawn g + n + 1\<rparr>"
proof -
  from create_block_loop_shape [OF assms [unfolded create_block_def]]
  obtain n where "blk = replicate (nat ms) ''s'' @ replicate n ''s'' @ [''o'']"
    "g' = g\<lparr>drawn := drawn g + n + 1\<rparr>" by auto
  then show ?thesis by (intro exI [of _ n]) (simp add: replicate_add)
qed

text \<open>
  Claim C5. Whatever \<^verbatim>\<open>create_block\<close> returns starts with \<open>min_standards\<close> standards,
  ends with an oddball, has no other oddball, and so none before index \<open>min_standards\<close>.
  It returns exactly when some draw from the current one on falls below the chance of an
  oddball.
\<close>

theorem create_block_spec:
  "(create_block min_standards chance_of_oddball g = Some (blk, g') \<longrightarrow>
      min_standards + 1 \<le> int (length blk)
      \<and> take (nat min_standards) blk = replicate (nat min_standards) ''s''
      \<and> last blk = ''o''
      \<and> (\<forall>i < length blk. (blk ! i = ''o'') = (i = length blk - 1))
      \<and> (\<forall>i < length blk. blk ! i = ''o'' \<longrightarrow> min_standards \<le> int i)
      \<and> set blk \<subseteq> {''s'', ''o''})
   \<and> ((create_block min_standards chance_of_oddball g \<noteq> None)
        = (\<exists>k. uniform g (drawn g + k) < chance_of_oddball))"
proof (intro conjI impI)
  assume a: "create_block min_standards chance_of_oddball g = Some (blk, g')"
  from create_block_shape [OF a] obtain n where
    b: "blk = replicate (nat min_standards + n) ''s'' @ [''o'']" by blast
  show "min_standards + 1 \<le> int (length blk)" using b by simp
  show "take (nat min_standards) blk = replicate (nat min_standards) ''s''"
    using b by (simp add: min_def)
  show "last blk = ''o''" using b by simp
  show c: "\<forall>i < length blk. (blk ! i = ''o'') = (i = length blk - 1)"
    using b by (auto simp: nth_append)
  show "\<forall>i < length blk. blk ! i = ''o'' \<longrightarrow> min_standards \<le> int i"
    using b by (auto simp: nth_append)
  show "set blk \<subseteq> {''s'', ''o''}" using b by auto
next
  show "(create_block min_standards chance_of_oddball g \<noteq> None)
        = (\<exists>k. uniform g (drawn g + k) < chance_of_oddball)"
    using create_block_loop_returns create_block_loop_shape
    unfolding create_block_def by (metis not_Some_eq)
qed


theorem create_block_spec_witness:
  "create_block 2 0.2 sample_rng
     = Some ([''s'', ''s'', ''s'', ''s'', ''o''], sample_rng\<lparr>drawn := 3\<rparr>)
   \<and> take 2 [''s'', ''s'', ''s'', ''s'', ''o''] = replicate 2 ''s''
   \<and> last [''s'', ''s'', ''s'', ''s'', ''o''] = ''o''
   \<and> (\<exists>k. uniform sample_rng (drawn sample_rng + k) < 0.2)"
proof -
  have run: "create_block 2 0.2 sample_rng
               = Some ([''s'', ''s'', ''s'', ''s'', ''o''], sample_rng\<lparr>drawn := 3\<rparr>)"
    by (simp add: create_block_def create_block_loop.simps random_random_def sample_rng_def
        numeral_2_eq_2)
  from create_block_spec [of 2 "0.2" sample_rng "[''s'', ''s'', ''s'', ''s'', ''o'']"
      "sample_rng\<lparr>drawn := 3\<rparr>"] run
  show ?thesis by simp
qed












section \<open>Properties of the attention stimulus selector\<close>


lemma possible_choices_eq:
  "possible_choices allow t ds thr cd
     = ds @ (if allow then [t] else []) @ (if allow \<and> cd \<le> thr then [t] else [])"
  by (simp add: possible_choices_def)

lemma divert_gate:
  "determine_attention_stimulus ''divert'' idx acc fo nc ac ccc t ds n D cd thr g
     = then_do (get_letter (idx \<in> set acc \<and> cd < 0) t ds thr cd (Some (obj_text fo)) g)
         (\<lambda>(letter, g').
            Inr ((fo\<lparr>obj_text := letter\<rparr>, (if letter = t then n + 1 else n),
                  (if letter = t then 2 + 1 else cd) - 1, letter = t, letter), g'))"
  by (auto simp: determine_attention_stimulus_def then_do_def Let_def split: sum.splits)

text \<open>
  Claim C1, amended. In the divert condition the letter is chosen from the distractor
  letters, followed by the target letter when targets are allowed (the trial is eligible
  and the countdown is below zero), followed by a second copy of the target letter when
  targets are allowed and the countdown is at or below the threshold; the previous letter
  is removed once if it is among them. Under the default configuration the list holds the
  target twice exactly when targets are allowed and the countdown is at most \<open>- 4\<close>, once
  when targets are allowed and the countdown is \<open>- 1\<close>, \<open>- 2\<close> or \<open>- 3\<close>, and not at all
  otherwise.
\<close>

theorem divert_candidates:
  "determine_attention_stimulus ''divert'' idx acc fo nc ac ccc t ds n D cd thr g
     = then_do (random_choice
                  (let candidates = possible_choices (idx \<in> set acc \<and> cd < 0) t ds thr cd
                   in if obj_text fo \<in> set candidates then remove1 (obj_text fo) candidates
                      else candidates) g)
         (\<lambda>(letter, g').
            Inr ((fo\<lparr>obj_text := letter\<rparr>, (if letter = t then n + 1 else n),
                  (if letter = t then 2 + 1 else cd) - 1, letter = t, letter), g'))
   \<and> possible_choices allow t ds thr cd
       = ds @ (if allow then [t] else []) @ (if allow \<and> cd \<le> thr then [t] else [])
   \<and> count_list (possible_choices (idx \<in> set acc \<and> cd < 0) TARGET_LETTER DISTRACTOR_LETTERS
                    TARGET_PROB_INCREASE_THRESHOLD cd) TARGET_LETTER
       = (if idx \<in> set acc \<and> cd < 0 then (if cd \<le> - 4 then 2 else 1) else 0)"
proof (intro conjI)
  show "determine_attention_stimulus ''divert'' idx acc fo nc ac ccc t ds n D cd thr g
     = then_do (random_choice
                  (let candidates = possible_choices (idx \<in> set acc \<and> cd < 0) t ds thr cd
                   in if obj_text fo \<in> set candidates then remove1 (obj_text fo) candidates
                      else candidates) g)
         (\<lambda>(letter, g').
            Inr ((fo\<lparr>obj_text := letter\<rparr>, (if letter = t then n + 1 else n),
                  (if letter = t then 2 + 1 else cd) - 1, letter = t, letter), g'))"
    unfolding divert_gate by (simp add: get_letter_def Let_def)
  show "possible_choices allow t ds thr cd
       = ds @ (if allow then [t] else []) @ (if allow \<and> cd \<le> thr then [t] else [])"
    by (rule possible_choices_eq)
  show "count_list (possible_choices (idx \<in> set acc \<and> cd < 0) TARGET_LETTER DISTRACTOR_LETTERS
                    TARGET_PROB_INCREASE_THRESHOLD cd) TARGET_LETTER
       = (if idx \<in> set acc \<and> cd < 0 then (if cd \<le> - 4 then 2 else 1) else 0)"
    by (simp add: possible_choices_def TARGET_LETTER_def DISTRACTOR_LETTERS_def
        TARGET_PROB_INCREASE_THRESHOLD_def)
qed

theorem divert_candidates_witness:
  "count_list (possible_choices (2 \<in> set [1, 2 :: int] \<and> (- 5 :: int) < 0) TARGET_LETTER
     DISTRACTOR_LETTERS TARGET_PROB_INCREASE_THRESHOLD (- 5)) TARGET_LETTER = 2
   \<and> count_list (possible_choices (2 \<in> set [1, 2 :: int] \<and> (- 3 :: int) < 0) TARGET_LETTER
        DISTRACTOR_LETTERS TARGET_PROB_INCREASE_THRESHOLD (- 3)) TARGET_LETTER = 1
   \<and> count_list (possible_choices (2 \<in> set [1, 2 :: int] \<and> (1 :: int) < 0) TARGET_LETTER
        DISTRACTOR_LETTERS TARGET_PROB_INCREASE_THRESHOLD 1) TARGET_LETTER = 0"
  using
    divert_candidates [of 2 "[1, 2]" sample_fixation "(0, 0, 0)" "(0, 0, 1)" "0.1" "''X''" "[]"
      0 10 "- 5" "- 4" sample_rng True, THEN conjunct2, THEN conjunct2]
    divert_candidates [of 2 "[1, 2]" sample_fixation "(0, 0, 0)" "(0, 0, 1)" "0.1" "''X''" "[]"
      0 10 "- 3" "- 4" sample_rng True, THEN conjunct2, THEN conjunct2]
    divert_candidates [of 2 "[1, 2]" sample_fixation "(0, 0, 0)" "(0, 0, 1)" "0.1" "''X''" "[]"
      0 10 1 "- 4" sample_rng True, THEN conjunct2, THEN conjunct2]
  by simp

text \<open>
  Claim C1 as stated fails. At countdown \<open>- 1\<close> on an eligible trial targets are allowed,
  yet the default threshold \<open>- 4\<close> is not reached and the candidates hold the target once:
  the draw that would pick the second copy picks \<^verbatim>\<open>"L"\<close>.
\<close>

theorem divert_second_copy_counterexample:
  "(1 :: int) \<in> set [1, 2] \<and> (- 1 :: int) < 0
   \<and> TARGET_PROB_INCREASE_THRESHOLD = - 4
   \<and> possible_choices True TARGET_LETTER DISTRACTOR_LETTERS TARGET_PROB_INCREASE_THRESHOLD (- 1)
       = [''Z'', ''L'', ''N'', ''T'', ''X'']
   \<and> count_list (possible_choices True TARGET_LETTER DISTRACTOR_LETTERS
                    TARGET_PROB_INCREASE_THRESHOLD (- 1)) TARGET_LETTER = 1
   \<and> determine_attention_stimulus ''divert'' 1 [1, 2] sample_fixation (- 0.5, - 0.5, - 0.5)
         (0, 0, 1) 0.1 TARGET_LETTER DISTRACTOR_LETTERS 0 10 (- 1)
         TARGET_PROB_INCREASE_THRESHOLD (sample_rng\<lparr>drawn := 4\<rparr>)
       = Inr ((sample_fixation\<lparr>obj_text := ''L''\<rparr>, 0, - 2, False, ''L''),
              sample_rng\<lparr>drawn := 5\<rparr>)"
  by (simp add: possible_choices_def TARGET_LETTER_def DISTRACTOR_LETTERS_def
      TARGET_PROB_INCREASE_THRESHOLD_def determine_attention_stimulus_def get_letter_def
      random_choice_def sample_rng_def sample_fixation_def Let_def)



lemma selector_decrement:
  assumes "determine_attention_stimulus cond idx acc fo nc ac ccc t ds n D cd thr g
             = Inr ((fo', n', cd', tgt, letter), g')"
  shows "cd' = (if tgt then (if cond = ''attend'' then D + 1 else 2 + 1) else cd) - 1"
    and "n' = (if tgt then n + 1 else n)"
    and "tgt \<longrightarrow> cond = ''attend'' \<or> cond = ''divert''"
  using assms
  by (auto simp: determine_attention_stimulus_def Let_def random_random_def
      split: if_splits sum.splits prod.splits)

lemma attend_blocked:
  assumes "condition a = ''attend''" and "0 < delay_countdown st"
  shows "select_stimulus a idx acc st
           = Inr (st\<lparr>fixation_obj := (fixation_obj st)\<lparr>obj_color := norm_colour a\<rparr>,
                     n_attention_targets := n_attention_targets st,
                     delay_countdown := delay_countdown st - 1, gen := gen st\<rparr>, False, [])"
  using assms by (simp add: select_stimulus_def determine_attention_stimulus_def Let_def)

lemma attend_blocked_run:
  assumes "condition a = ''attend''"
  shows "int (length cs) \<le> delay_countdown st \<Longrightarrow>
           \<exists>st'. selector_calls a cs st = Inr (replicate (length cs) False, st')
                 \<and> delay_countdown st' = delay_countdown st - int (length cs)"
proof (induction cs arbitrary: st)
  case Nil
  then show ?case by simp
next
  case (Cons c cs)
  let ?st = "st\<lparr>fixation_obj := (fixation_obj st)\<lparr>obj_color := norm_colour a\<rparr>,
                 n_attention_targets := n_attention_targets st,
                 delay_countdown := delay_countdown st - 1, gen := gen st\<rparr>"
  from Cons.prems have pos: "0 < delay_countdown st" by simp
  have step: "select_stimulus a (fst c) (snd c) st = Inr (?st, False, [])"
    by (rule attend_blocked [OF assms pos])
  from Cons.prems have "int (length cs) \<le> delay_countdown ?st" by simp
  from Cons.IH [OF this] obtain st' where
    "selector_calls a cs ?st = Inr (replicate (length cs) False, st')"
    "delay_countdown st' = delay_countdown ?st - int (length cs)" by blast
  with step show ?case by simp
qed

lemma attend_fires:
  assumes "condition a = ''attend''" and "idx \<in> set acc" and "delay_countdown st \<le> 0"
    and "uniform (gen st) (drawn (gen st)) < colour_change_chance a"
  shows "\<exists>st'. select_stimulus a idx acc st = Inr (st', True, [])
               \<and> delay_countdown st' = defined_response_delay a"
  using assms
  by (simp add: select_stimulus_def determine_attention_stimulus_def Let_def random_random_def)

text \<open>
  Claim C2. Every call of the selector that returns hands back the countdown it decided
  on, less one: the reset value after a target, the incoming countdown otherwise. In the
  attend condition a target therefore returns \<open>defined_response_delay\<close>, and after a reset
  to \<open>V = defined_response_delay + 1\<close> any run of at most \<open>V - 1\<close> further calls yields
  no target, whatever trials and draws they see, and counts the countdown down by one per
  call. Once the countdown is at zero or below, an eligible call whose draw is below the
  chance does yield a target.
\<close>

theorem countdown_cooldown:
  "(determine_attention_stimulus cond idx acc fo nc ac ccc t ds n D cd thr g
      = Inr ((fo', n', cd', tgt, letter), g') \<longrightarrow>
      cd' = (if tgt then (if cond = ''attend'' then D + 1 else 2 + 1) else cd) - 1
      \<and> (cond = ''attend'' \<and> tgt \<longrightarrow> cd' = D))
   \<and> (condition a = ''attend'' \<and> select_stimulus a i ok st = Inr (st1, True, shown) \<longrightarrow>
        delay_countdown st1 = (defined_response_delay a + 1) - 1
        \<and> (\<forall>cs. int (length cs) \<le> (defined_response_delay a + 1) - 1 \<longrightarrow>
              (\<exists>st2. selector_calls a cs st1 = Inr (replicate (length cs) False, st2)
                     \<and> delay_countdown st2 = defined_response_delay a - int (length cs))))
   \<and> (condition a = ''attend'' \<and> i \<in> set ok \<and> delay_countdown st \<le> 0
        \<and> uniform (gen st) (drawn (gen st)) < colour_change_chance a \<longrightarrow>
        (\<exists>st'. select_stimulus a i ok st = Inr (st', True, [])))"
proof (intro conjI impI)
  assume r: "determine_attention_stimulus cond idx acc fo nc ac ccc t ds n D cd thr g
      = Inr ((fo', n', cd', tgt, letter), g')"
  from selector_decrement(1) [OF r]
  show "cd' = (if tgt then (if cond = ''attend'' then D + 1 else 2 + 1) else cd) - 1" .
  then show "cd' = D" if "cond = ''attend'' \<and> tgt" using that by simp
next
  assume h: "condition a = ''attend'' \<and> select_stimulus a i ok st = Inr (st1, True, shown)"
  then obtain fo' n' cd' letter g' where
    d: "determine_attention_stimulus (condition a) i ok (fixation_obj st) (norm_colour a)
          (att_colour a) (colour_change_chance a) (target_letter a) (distractor_letters a)
          (n_attention_targets st) (defined_response_delay a) (delay_countdown st)
          (prob_threshold a) (gen st) = Inr ((fo', n', cd', True, letter), g')"
    and st1: "st1 = st\<lparr>fixation_obj := fo', n_attention_targets := n', delay_countdown := cd',
                       gen := g'\<rparr>"
    by (auto simp: select_stimulus_def split: sum.splits)
  from selector_decrement(1) [OF d] h have "cd' = defined_response_delay a" by simp
  with st1 show c: "delay_countdown st1 = (defined_response_delay a + 1) - 1" by simp
  show "\<forall>cs. int (length cs) \<le> (defined_response_delay a + 1) - 1 \<longrightarrow>
              (\<exists>st2. selector_calls a cs st1 = Inr (replicate (length cs) False, st2)
                     \<and> delay_countdown st2 = defined_response_delay a - int (length cs))"
  proof (intro allI impI)
    fix cs :: "(int \<times> int list) list"
    assume "int (length cs) \<le> (defined_response_delay a + 1) - 1"
    with c have "int (length cs) \<le> delay_countdown st1" by simp
    from attend_blocked_run [OF conjunct1 [OF h] this] c
    show "\<exists>st2. selector_calls a cs st1 = Inr (replicate (length cs) False, st2)
                     \<and> delay_countdown st2 = defined_response_delay a - int (length cs)"
      by simp
  qed
next
  assume "condition a = ''attend'' \<and> i \<in> set ok \<and> delay_countdown st \<le> 0
        \<and> uniform (gen st) (drawn (gen st)) < colour_change_chance a"
  then show "\<exists>st'. select_stimulus a i ok st = Inr (st', True, [])"
    using attend_fires by blast
qed



theorem countdown_cooldown_witness:
  "select_stimulus (sample_args\<lparr>colour_change_chance := 0.4, defined_response_delay := 2\<rparr>)
       1 [1, 2] sample_state
     = Inr (sample_state\<lparr>fixation_obj := sample_fixation\<lparr>obj_color := (0, 0, 1)\<rparr>,
              n_attention_targets := 1, delay_countdown := 2,
              gen := sample_rng\<lparr>drawn := 3\<rparr>\<rparr>, True, [])
   \<and> (\<exists>st2. selector_calls
               (sample_args\<lparr>colour_change_chance := 0.4, defined_response_delay := 2\<rparr>)
               [(1, [1, 2]), (2, [1, 2])]
               (sample_state\<lparr>fixation_obj := sample_fixation\<lparr>obj_color := (0, 0, 1)\<rparr>,
                  n_attention_targets := 1, delay_countdown := 2,
                  gen := sample_rng\<lparr>drawn := 3\<rparr>\<rparr>)
             = Inr ([False, False], st2)
           \<and> delay_countdown st2 = 0)"
proof -
  let ?a = "sample_args\<lparr>colour_change_chance := 0.4, defined_response_delay := 2\<rparr>"
  let ?st1 = "sample_state\<lparr>fixation_obj := sample_fixation\<lparr>obj_color := (0, 0, 1)\<rparr>,
                n_attention_targets := 1, delay_countdown := 2,
                gen := sample_rng\<lparr>drawn := 3\<rparr>\<rparr>"
  have cond: "condition ?a = ''attend''" by (simp add: sample_args_def)
  have fired: "select_stimulus ?a 1 [1, 2] sample_state = Inr (?st1, True, [])"
    by (simp add: select_stimulus_def determine_attention_stimulus_def random_random_def
        sample_args_def sample_state_def sample_rng_def sample_fixation_def Let_def)
  from countdown_cooldown [where a = ?a and i = 1 and ok = "[1, 2]" and st = sample_state
      and ?st1.0 = ?st1 and shown = "[]", THEN conjunct2, THEN conjunct1, rule_format,
      OF conjI [OF cond fired]]
  have later: "\<forall>cs. int (length cs) \<le> defined_response_delay ?a + 1 - 1 \<longrightarrow>
          (\<exists>st2. selector_calls ?a cs ?st1 = Inr (replicate (length cs) False, st2)
                 \<and> delay_countdown st2 = defined_response_delay ?a - int (length cs))"
    by blast
  have "\<exists>st2. selector_calls ?a [(1, [1, 2]), (2, [1, 2])] ?st1 = Inr ([False, False], st2)
              \<and> delay_countdown st2 = 0"
    using later [rule_format, of "[(1, [1, 2]), (2, [1, 2])]"] by simp
  with fired show ?thesis by blast
qed

text \<open>
  Claim C3 does not hold of \<^verbatim>\<open>block_handler.get_letter\<close>. With the single distractor
  \<^verbatim>\<open>"Z"\<close>, targets not allowed and \<^verbatim>\<open>"Z"\<close> shown last, the candidates are not empty, the
  previous letter is removed all the same, and \<^verbatim>\<open>random.choice\<close> raises on the empty list.
  The rule of \<^verbatim>\<open>trial_logic.py\<close> keeps the letter and repeats it.
\<close>

theorem get_letter_empty_choice:
  "possible_choices False ''X'' [''Z''] (- 4) 0 = [''Z'']
   \<and> get_letter False ''X'' [''Z''] (- 4) 0 (Some ''Z'') g = Inl IndexError
   \<and> tl_get_letter False (Some ''Z'') ''X'' [''Z''] g = Inr (''Z'', g\<lparr>drawn := Suc (drawn g)\<rparr>)"
  by (simp add: possible_choices_def get_letter_def tl_get_letter_def random_choice_def Let_def)

lemma tl_get_letter_returns:
  "\<exists>letter g'. tl_get_letter allow avoid t ds g = Inr (letter, g')"
  by (auto simp: tl_get_letter_def random_choice_def Let_def split: option.splits)

lemma random_choice_member:
  "random_choice xs g = Inr (x, g') \<Longrightarrow> x \<in> set xs"
  by (auto simp: random_choice_def split: if_splits)

lemma tl_get_letter_avoids:
  assumes run: "tl_get_letter allow (Some prev) t ds g = Inr (letter, g')"
    and c: "c = (if allow then ds @ [t] else ds)"
    and "distinct c" and "c \<noteq> [prev]" and "c \<noteq> []"
  shows "letter \<noteq> prev"
proof -
  have unfolded: "tl_get_letter allow (Some prev) t ds g =
      (let possible = (if prev \<in> set c then (if length c > 1 then remove1 prev c else c) else c)
       in if possible = [] then Inr (''?'', g) else random_choice possible g)"
    unfolding c by (simp add: tl_get_letter_def Let_def)
  show ?thesis
  proof (cases "prev \<in> set c")
    case True
    then obtain x xs where cx: "c = x # xs"
      by (cases c) auto
    have "xs \<noteq> []"
    proof
      assume "xs = []"
      with cx True have "c = [prev]" by simp
      with assms(4) show False by simp
    qed
    with cx have len: "1 < length c" by simp
    have "length (remove1 prev c) = length c - 1"
      using True by (simp add: length_remove1)
    with len have ne: "remove1 prev c \<noteq> []" by auto
    from run unfolded True len ne
    have "random_choice (remove1 prev c) g = Inr (letter, g')" by simp
    then have "letter \<in> set (remove1 prev c)" by (rule random_choice_member)
    with assms(3) show ?thesis by (simp add: set_remove1_eq)
  next
    case False
    with run unfolded assms(5)
    have "random_choice c g = Inr (letter, g')" by simp
    then have "letter \<in> set c" by (rule random_choice_member)
    with False show ?thesis by auto
  qed
qed

section \<open>Properties of the practice gate\<close>



section \<open>Properties of the block runner\<close>

lemma sent_bodies_append [simp]:
  "sent_bodies i (xs @ ys) = sent_bodies i xs @ sent_bodies i ys"
  by (simp add: sent_bodies_def)

lemma stim_draws_append [simp]: "stim_draws (xs @ ys) = stim_draws xs @ stim_draws ys"
  by (simp add: stim_draws_def)

lemma fixation_draws_append [simp]:
  "fixation_draws (xs @ ys) = fixation_draws xs @ fixation_draws ys"
  by (simp add: fixation_draws_def)

lemma sent_bodies_msg [simp]:
  "sent_bodies i (msg_eyetracker j m lg cv) = (if j = i then [m] else [])"
  by (simp add: sent_bodies_def msg_eyetracker_def)

lemma stim_draws_msg [simp]: "stim_draws (msg_eyetracker j m lg cv) = []"
  by (simp add: stim_draws_def msg_eyetracker_def)

lemma fixation_draws_msg [simp]: "fixation_draws (msg_eyetracker j m lg cv) = []"
  by (simp add: fixation_draws_def msg_eyetracker_def)

lemma observers_nil [simp]:
  "sent_bodies i [] = []" "stim_draws [] = []" "fixation_draws [] = []"
  by (simp_all add: sent_bodies_def stim_draws_def fixation_draws_def)

lemma observers_single [simp]:
  "sent_bodies i [Log_error e] = []" "stim_draws [Log_error e] = []"
  "fixation_draws [Log_error e] = []"
  "sent_bodies i [Draw_stim s] = []" "stim_draws [Draw_stim s] = [s]"
  "fixation_draws [Draw_stim s] = []"
  "sent_bodies i [Draw_fixation f, Flip t] = []" "stim_draws [Draw_fixation f, Flip t] = []"
  "fixation_draws [Draw_fixation f, Flip t] = [f]"
  by (simp_all add: sent_bodies_def stim_draws_def fixation_draws_def)

lemma emit_fields [simp]:
  "trace (emit evs st) = trace st @ evs"
  "frame_no (emit evs st) = frame_no st"
  "clock_no (emit evs st) = clock_no st"
  "trial_stim (emit evs st) = trial_stim st"
  "oddball_name (emit evs st) = oddball_name st"
  "fixation_obj (emit evs st) = fixation_obj st"
  "gen (emit evs st) = gen st"
  "delay_countdown (emit evs st) = delay_countdown st"
  "n_attention_targets (emit evs st) = n_attention_targets st"
  "n_attention_responses (emit evs st) = n_attention_responses st"
  "keypress_times (emit evs st) = keypress_times st"
  by (simp_all add: emit_def)

lemma handle_key_fields [simp]:
  "frame_no (handle_key a tc key st) = frame_no st"
  "clock_no (handle_key a tc key st) = clock_no st"
  "trial_stim (handle_key a tc key st) = trial_stim st"
  "oddball_name (handle_key a tc key st) = oddball_name st"
  "fixation_obj (handle_key a tc key st) = fixation_obj st"
  "gen (handle_key a tc key st) = gen st"
  "delay_countdown (handle_key a tc key st) = delay_countdown st"
  "n_attention_targets (handle_key a tc key st) = n_attention_targets st"
  "stim_draws (trace (handle_key a tc key st)) = stim_draws (trace st)"
  "fixation_draws (trace (handle_key a tc key st)) = fixation_draws (trace st)"
  "sent_bodies ''MAIN_STIM_OFFSET'' (trace (handle_key a tc key st))
     = sent_bodies ''MAIN_STIM_OFFSET'' (trace st)"
  by (simp_all add: handle_key_def split: prod.splits)

lemma handle_keys_fields [simp]:
  "frame_no (handle_keys a tc keys st) = frame_no st"
  "clock_no (handle_keys a tc keys st) = clock_no st"
  "trial_stim (handle_keys a tc keys st) = trial_stim st"
  "oddball_name (handle_keys a tc keys st) = oddball_name st"
  "fixation_obj (handle_keys a tc keys st) = fixation_obj st"
  "gen (handle_keys a tc keys st) = gen st"
  "delay_countdown (handle_keys a tc keys st) = delay_countdown st"
  "n_attention_targets (handle_keys a tc keys st) = n_attention_targets st"
  "stim_draws (trace (handle_keys a tc keys st)) = stim_draws (trace st)"
  "fixation_draws (trace (handle_keys a tc keys st)) = fixation_draws (trace st)"
  "sent_bodies ''MAIN_STIM_OFFSET'' (trace (handle_keys a tc keys st))
     = sent_bodies ''MAIN_STIM_OFFSET'' (trace st)"
  unfolding handle_keys_def by (induction keys arbitrary: st; simp)+

lemma check_recording_fields [simp]:
  "frame_no (check_recording a inp st) = frame_no st"
  "clock_no (check_recording a inp st) = clock_no st"
  "trial_stim (check_recording a inp st) = trial_stim st"
  "oddball_name (check_recording a inp st) = oddball_name st"
  "fixation_obj (check_recording a inp st) = fixation_obj st"
  "gen (check_recording a inp st) = gen st"
  "delay_countdown (check_recording a inp st) = delay_countdown st"
  "n_attention_targets (check_recording a inp st) = n_attention_targets st"
  "stim_draws (trace (check_recording a inp st)) = stim_draws (trace st)"
  "fixation_draws (trace (check_recording a inp st)) = fixation_draws (trace st)"
  "sent_bodies i (trace (check_recording a inp st)) = sent_bodies i (trace st)"
  by (simp_all add: check_recording_def)

lemma stim_name_same [simp]:
  "stim_name a ty (emit evs st) = stim_name a ty st"
  "stim_name a ty (handle_keys a tc keys st) = stim_name a ty st"
  "stim_name a ty (check_recording a inp st) = stim_name a ty st"
  by (simp_all add: stim_name_def)

lemma stim_name_cases:
  "stim_name a ty st = Inl UnboundLocalError \<and> ty \<noteq> ''s'' \<and> oddball_name st = None
   \<or> (\<exists>name. stim_name a ty st = Inr name)"
  by (cases "oddball_name st") (simp_all add: stim_name_def)

lemma stimulus_frame_returns:
  assumes "main_stim_frames a \<le> k \<or> trial_stim st \<noteq> None"
    and "ty = ''s'' \<or> oddball_name st \<noteq> None"
  shows "\<exists>st'. stimulus_frame a d tc ty tgt letter k st = Inr st'"
proof -
  from assms(2) obtain name where n: "stim_name a ty st = Inr name"
    using stim_name_cases [of a ty st] by auto
  show ?thesis
  proof (cases "k < main_stim_frames a")
    case True
    with assms(1) obtain s where "trial_stim st = Some s" by auto
    with True n show ?thesis
      by (simp add: stimulus_frame_def then_do_def Let_def)
  next
    case False
    with n show ?thesis
      by (simp add: stimulus_frame_def then_do_def Let_def)
  qed
qed

lemma emit_nil [simp]: "emit [] st = st"
  by (simp add: emit_def)

lemma stimulus_frame_result:
  fixes a :: "'s block_args" and st :: "'s block_state" and d :: display and ty :: string
    and k tc :: int and tgt :: bool and letter :: string
  defines "inp \<equiv> frames d (frame_no st)"
  defines "nm \<equiv> (case stim_name a ty st of Inr n \<Rightarrow> n | Inl e \<Rightarrow> [])"
  defines "drawn_stim \<equiv> (if k < main_stim_frames a then [Draw_stim (the (trial_stim st))] else [])"
  defines "onset \<equiv> (if \<not> practice a \<and> k = 0
                      then main_stim_msg a ''MAIN_STIM_ONSET'' tc ty (flip_time inp) nm
                           @ fixation_onset a tc ty (flip_time inp) tgt letter []
                      else [])"
  defines "offset \<equiv> (if \<not> practice a \<and> k = main_stim_frames a
                       then main_stim_msg a ''MAIN_STIM_OFFSET'' tc ty (flip_time inp) nm
                       else [])"
  assumes run: "stimulus_frame a d tc ty tgt letter k st = Inr st'"
  shows "st' = (emit offset (handle_keys a tc (key_events inp)
                  (emit onset (emit [Draw_fixation (fixation_obj st), Flip (flip_time inp)]
                    (emit drawn_stim (check_recording a inp st))))))
               \<lparr>frame_no := Suc (frame_no st)\<rparr>"
proof (cases "stim_name a ty st")
  case (Inl e)
  show ?thesis
  proof (cases "k < main_stim_frames a")
    case True
    with run obtain s where s: "trial_stim st = Some s"
      by (cases "trial_stim st") (simp_all add: stimulus_frame_def then_do_def Let_def)
    from run Inl True s have "practice a \<or> (k \<noteq> 0 \<and> k \<noteq> main_stim_frames a)"
      by (auto simp: stimulus_frame_def then_do_def Let_def split: if_splits)
    with run Inl True s show ?thesis
      unfolding inp_def nm_def drawn_stim_def onset_def offset_def
      by (auto simp: stimulus_frame_def then_do_def Let_def)
  next
    case False
    from run Inl False have "practice a \<or> (k \<noteq> 0 \<and> k \<noteq> main_stim_frames a)"
      by (auto simp: stimulus_frame_def then_do_def Let_def split: if_splits)
    with run Inl False show ?thesis
      unfolding inp_def nm_def drawn_stim_def onset_def offset_def
      by (auto simp: stimulus_frame_def then_do_def Let_def)
  qed
next
  case (Inr name)
  show ?thesis
  proof (cases "k < main_stim_frames a")
    case True
    with run obtain s where s: "trial_stim st = Some s"
      by (cases "trial_stim st") (simp_all add: stimulus_frame_def then_do_def Let_def)
    with run Inr True show ?thesis
      unfolding inp_def nm_def drawn_stim_def onset_def offset_def
      by (auto simp: stimulus_frame_def then_do_def Let_def)
  next
    case False
    with run Inr show ?thesis
      unfolding inp_def nm_def drawn_stim_def onset_def offset_def
      by (auto simp: stimulus_frame_def then_do_def Let_def)
  qed
qed

lemma observers_Cons [simp]:
  "sent_bodies i (ev # tr)
     = (case ev of Send_message j b \<Rightarrow> (if j = i then [b] else []) | _ \<Rightarrow> []) @ sent_bodies i tr"
  "stim_draws (ev # tr) = (case ev of Draw_stim s \<Rightarrow> [s] | _ \<Rightarrow> []) @ stim_draws tr"
  "fixation_draws (ev # tr)
     = (case ev of Draw_fixation f \<Rightarrow> [f] | _ \<Rightarrow> []) @ fixation_draws tr"
  by (simp_all add: sent_bodies_def stim_draws_def fixation_draws_def)

lemma offset_of_messages [simp]:
  "map marker (sent_bodies ''MAIN_STIM_OFFSET'' (main_stim_msg a ''MAIN_STIM_OFFSET'' tc ty t nm))
     = [(trial_ids a tc, Some t)]"
  "sent_bodies ''MAIN_STIM_OFFSET'' (main_stim_msg a ''MAIN_STIM_ONSET'' tc ty t nm) = []"
  "sent_bodies ''MAIN_STIM_OFFSET'' (fixation_onset a tc ty t tgt letter extra) = []"
  "stim_draws (main_stim_msg a i tc ty t nm) = []"
  "stim_draws (fixation_onset a tc ty t tgt letter extra) = []"
  "fixation_draws (main_stim_msg a i tc ty t nm) = []"
  "fixation_draws (fixation_onset a tc ty t tgt letter extra) = []"
  by (simp_all add: main_stim_msg_def fixation_onset_def marker_def)

lemma stimulus_frame_effect:
  assumes "stimulus_frame a d tc ty tgt letter k st = Inr st'"
  shows "frame_no st' = Suc (frame_no st)"
    and "clock_no st' = clock_no st"
    and "trial_stim st' = trial_stim st"
    and "oddball_name st' = oddball_name st"
    and "fixation_obj st' = fixation_obj st"
    and "gen st' = gen st"
    and "delay_countdown st' = delay_countdown st"
    and "n_attention_targets st' = n_attention_targets st"
    and "stim_draws (trace st')
           = stim_draws (trace st) @ (if k < main_stim_frames a then [the (trial_stim st)] else [])"
    and "fixation_draws (trace st') = fixation_draws (trace st) @ [fixation_obj st]"
    and "map marker (sent_bodies ''MAIN_STIM_OFFSET'' (trace st'))
           = map marker (sent_bodies ''MAIN_STIM_OFFSET'' (trace st))
             @ (if \<not> practice a \<and> k = main_stim_frames a
                then [(trial_ids a tc, Some (flip_time (frames d (frame_no st))))] else [])"
  unfolding stimulus_frame_result [OF assms] by simp_all

lemma for_each_upto_from:
  assumes step: "\<And>i s s'. k0 \<le> i \<Longrightarrow> i < n \<Longrightarrow> I i s \<Longrightarrow> body i s = Inr s' \<Longrightarrow> I (i + 1) s'"
  shows "k0 \<le> k \<Longrightarrow> for_each [k .. n - 1] body st = Inr st' \<Longrightarrow> I k st \<Longrightarrow> I (max k n) st'"
proof (induction "nat (n - k)" arbitrary: k st)
  case 0
  then have "n \<le> k" by simp
  with 0 show ?case by (simp add: max_def)
next
  case (Suc m)
  then have lt: "k < n" by linarith
  then have unroll: "[k .. n - 1] = k # [k + 1 .. n - 1]"
    by (simp add: upto_rec1)
  from Suc.prems(2) obtain s1 where s1: "body k st = Inr s1"
    and rest: "for_each [k + 1 .. n - 1] body s1 = Inr st'"
    unfolding unroll by (cases "body k st") simp_all
  from step [OF Suc.prems(1) lt Suc.prems(3) s1] have inv: "I (k + 1) s1" .
  from Suc.hyps(2) have m: "m = nat (n - (k + 1))" by linarith
  from Suc.prems(1) have "k0 \<le> k + 1" by simp
  from Suc.hyps(1) [OF m this rest inv] have "I (max (k + 1) n) st'" .
  with lt show ?case by (simp add: max_def)
qed

lemma for_each_upto:
  assumes "for_each [0 .. n - 1] body st = Inr st'" and "I 0 st"
    and "\<And>i s s'. 0 \<le> i \<Longrightarrow> i < n \<Longrightarrow> I i s \<Longrightarrow> body i s = Inr s' \<Longrightarrow> I (i + 1) s'"
  shows "I (max 0 n) st'"
  using for_each_upto_from [where I = I and ?k0.0 = 0 and k = 0, OF assms(3) _ assms(1,2)]
  by simp

lemma for_each_returns:
  assumes "P st" and "\<And>x s. x \<in> set xs \<Longrightarrow> P s \<Longrightarrow> \<exists>s'. body x s = Inr s' \<and> P s'"
  shows "\<exists>st'. for_each xs body st = Inr st' \<and> P st'"
  using assms
proof (induction xs arbitrary: st)
  case Nil
  then show ?case by simp
next
  case (Cons x xs)
  from Cons.prems(2) [of x st] Cons.prems(1) obtain s1 where s1: "body x st = Inr s1" "P s1"
    by auto
  from Cons.IH [OF s1(2)] Cons.prems(2) obtain st' where "for_each xs body s1 = Inr st' \<and> P st'"
    by auto
  with s1 show ?case by simp
qed

lemma for_each_invariant:
  assumes "for_each xs body st = Inr st'" and "P st"
    and "\<And>x s s'. x \<in> set xs \<Longrightarrow> P s \<Longrightarrow> body x s = Inr s' \<Longrightarrow> P s'"
  shows "P st'"
  using assms
proof (induction xs arbitrary: st)
  case Nil
  then show ?case by simp
next
  case (Cons x xs)
  from Cons.prems(1) obtain s1 where s1: "body x st = Inr s1" "for_each xs body s1 = Inr st'"
    by (cases "body x st") simp_all
  from Cons.prems(3) [OF _ Cons.prems(2) s1(1)] have "P s1" by simp
  moreover have "\<And>y s s'. y \<in> set xs \<Longrightarrow> P s \<Longrightarrow> body y s = Inr s' \<Longrightarrow> P s'"
    using Cons.prems(3) by (meson list.set_intros(2))
  ultimately show ?case using Cons.IH [OF s1(2)] by blast
qed

lemma stimulus_phase_effect:
  fixes st :: "'a block_state"
  assumes run: "stimulus_phase a d tc ty tgt letter st = Inr st'"
  shows "frame_no st' = frame_no st + nat (attention_frames a)"
    and "clock_no st' = clock_no st"
    and "trial_stim st' = trial_stim st"
    and "oddball_name st' = oddball_name st"
    and "map marker (sent_bodies ''MAIN_STIM_OFFSET'' (trace st'))
           = map marker (sent_bodies ''MAIN_STIM_OFFSET'' (trace st))
             @ (if \<not> practice a \<and> 0 \<le> main_stim_frames a
                    \<and> main_stim_frames a < attention_frames a
                then [(trial_ids a tc,
                       Some (flip_time (frames d (frame_no st + nat (main_stim_frames a)))))]
                else [])"
    and "stim_draws (trace st')
           = stim_draws (trace st)
             @ replicate (nat (min (main_stim_frames a) (attention_frames a)))
                 (the (trial_stim st))"
    and "fixation_draws (trace st')
           = fixation_draws (trace st) @ replicate (nat (attention_frames a)) (fixation_obj st)"
proof -
  let ?m = "main_stim_frames a" and ?n = "attention_frames a"
  define I where "I i s \<longleftrightarrow>
      frame_no s = frame_no st + nat i \<and> clock_no s = clock_no st
      \<and> trial_stim s = trial_stim st \<and> oddball_name s = oddball_name st
      \<and> fixation_obj s = fixation_obj st
      \<and> map marker (sent_bodies ''MAIN_STIM_OFFSET'' (trace s))
           = map marker (sent_bodies ''MAIN_STIM_OFFSET'' (trace st))
             @ (if \<not> practice a \<and> 0 \<le> ?m \<and> ?m < i
                then [(trial_ids a tc, Some (flip_time (frames d (frame_no st + nat ?m))))]
                else [])
      \<and> stim_draws (trace s)
           = stim_draws (trace st) @ replicate (nat (min ?m i)) (the (trial_stim st))
      \<and> fixation_draws (trace s)
           = fixation_draws (trace st) @ replicate (nat i) (fixation_obj st)"
    for i and s :: "'a block_state"
  have init: "I 0 st" by (simp add: I_def)
  have step: "I (i + 1) s'"
    if "0 \<le> i" "i < ?n" "I i s" "stimulus_frame a d tc ty tgt letter i s = Inr s'" for i s s'
  proof -
    note e = stimulus_frame_effect [OF that(4)]
    from that(3) have inv:
      "frame_no s = frame_no st + nat i" "clock_no s = clock_no st"
      "trial_stim s = trial_stim st" "oddball_name s = oddball_name st"
      "fixation_obj s = fixation_obj st"
      "map marker (sent_bodies ''MAIN_STIM_OFFSET'' (trace s))
           = map marker (sent_bodies ''MAIN_STIM_OFFSET'' (trace st))
             @ (if \<not> practice a \<and> 0 \<le> ?m \<and> ?m < i
                then [(trial_ids a tc, Some (flip_time (frames d (frame_no st + nat ?m))))]
                else [])"
      "stim_draws (trace s)
           = stim_draws (trace st) @ replicate (nat (min ?m i)) (the (trial_stim st))"
      "fixation_draws (trace s)
           = fixation_draws (trace st) @ replicate (nat i) (fixation_obj st)"
      by (simp_all add: I_def)
    have suc: "nat (i + 1) = Suc (nat i)" using that(1) by simp
    have a1: "frame_no s' = frame_no st + nat (i + 1)" using e(1) inv(1) suc by simp
    have a2: "map marker (sent_bodies ''MAIN_STIM_OFFSET'' (trace s'))
           = map marker (sent_bodies ''MAIN_STIM_OFFSET'' (trace st))
             @ (if \<not> practice a \<and> 0 \<le> ?m \<and> ?m < i + 1
                then [(trial_ids a tc, Some (flip_time (frames d (frame_no st + nat ?m))))]
                else [])"
    proof (cases "i = ?m")
      case True
      with that(1) e(11) inv(1,6) show ?thesis by simp
    next
      case False
      then have "(?m < i + 1) = (?m < i)" by linarith
      with False e(11) inv(6) show ?thesis by simp
    qed
    have a3: "stim_draws (trace s')
           = stim_draws (trace st) @ replicate (nat (min ?m (i + 1))) (the (trial_stim st))"
    proof (cases "i < ?m")
      case True
      then have "min ?m (i + 1) = i + 1" "min ?m i = i" by simp_all
      with True e(9) inv(3,7) suc show ?thesis
        by (simp add: replicate_append_same)
    next
      case False
      then have "min ?m (i + 1) = ?m" "min ?m i = ?m" by simp_all
      with False e(9) inv(7) show ?thesis by simp
    qed
    have a4: "fixation_draws (trace s')
           = fixation_draws (trace st) @ replicate (nat (i + 1)) (fixation_obj st)"
      using e(10) inv(5,8) suc by (simp add: replicate_append_same)
    from a1 a2 a3 a4 e(2,3,4,5) inv(2,3,4,5) show ?thesis
      unfolding I_def by simp
  qed
  from run have loop: "for_each [0 .. ?n - 1] (stimulus_frame a d tc ty tgt letter) st = Inr st'"
    by (simp add: stimulus_phase_def)
  have fin: "I (max 0 ?n) st'"
  proof (rule for_each_upto [where I = I, OF loop init])
    fix i s s'
    assume "0 \<le> i" "i < ?n" "I i s" "stimulus_frame a d tc ty tgt letter i s = Inr s'"
    then show "I (i + 1) s'" by (rule step)
  qed
  have n: "nat (max 0 ?n) = nat ?n" by simp
  have m: "nat (min ?m (max 0 ?n)) = nat (min ?m ?n)" by (simp add: min_def max_def)
  have c: "(0 \<le> ?m \<and> ?m < max 0 ?n) = (0 \<le> ?m \<and> ?m < ?n)" by (auto simp: max_def)
  from fin show "frame_no st' = frame_no st + nat ?n" "clock_no st' = clock_no st"
    "trial_stim st' = trial_stim st" "oddball_name st' = oddball_name st"
    "fixation_draws (trace st')
           = fixation_draws (trace st) @ replicate (nat ?n) (fixation_obj st)"
    "stim_draws (trace st')
           = stim_draws (trace st) @ replicate (nat (min ?m ?n)) (the (trial_stim st))"
    unfolding I_def n m by simp_all
  from fin have "map marker (sent_bodies ''MAIN_STIM_OFFSET'' (trace st'))
           = map marker (sent_bodies ''MAIN_STIM_OFFSET'' (trace st))
             @ (if \<not> practice a \<and> (0 \<le> ?m \<and> ?m < max 0 ?n)
                then [(trial_ids a tc, Some (flip_time (frames d (frame_no st + nat ?m))))]
                else [])"
    unfolding I_def by simp
  then show "map marker (sent_bodies ''MAIN_STIM_OFFSET'' (trace st'))
           = map marker (sent_bodies ''MAIN_STIM_OFFSET'' (trace st))
             @ (if \<not> practice a \<and> 0 \<le> ?m \<and> ?m < ?n
                then [(trial_ids a tc, Some (flip_time (frames d (frame_no st + nat ?m))))]
                else [])"
    unfolding c .
qed

lemma interim_frame_effect:
  assumes "interim_frame a d tc ty tgt letter k st = Inr st'"
  shows "frame_no st' = Suc (frame_no st)"
    and "clock_no st' = clock_no st"
    and "trial_stim st' = trial_stim st"
    and "oddball_name st' = oddball_name st"
    and "stim_draws (trace st') = stim_draws (trace st)"
    and "sent_bodies ''MAIN_STIM_OFFSET'' (trace st') = sent_bodies ''MAIN_STIM_OFFSET'' (trace st)"
  using assms by (auto simp: interim_frame_def Let_def)

lemma interim_frames_effect:
  fixes st :: "'a block_state"
  assumes run: "for_each [0 .. n - 1] (interim_frame a d tc ty tgt letter) st = Inr st'"
  shows "frame_no st' = frame_no st + nat n \<and> clock_no st' = clock_no st
         \<and> trial_stim st' = trial_stim st \<and> oddball_name st' = oddball_name st
         \<and> stim_draws (trace st') = stim_draws (trace st)
         \<and> sent_bodies ''MAIN_STIM_OFFSET'' (trace st')
             = sent_bodies ''MAIN_STIM_OFFSET'' (trace st)"
proof -
  define I where "I i s \<longleftrightarrow>
      frame_no s = frame_no st + nat i \<and> clock_no s = clock_no st
      \<and> trial_stim s = trial_stim st \<and> oddball_name s = oddball_name st
      \<and> stim_draws (trace s) = stim_draws (trace st)
      \<and> sent_bodies ''MAIN_STIM_OFFSET'' (trace s) = sent_bodies ''MAIN_STIM_OFFSET'' (trace st)"
    for i and s :: "'a block_state"
  have "I (max 0 n) st'"
  proof (rule for_each_upto [where I = I, OF run])
    show "I 0 st" by (simp add: I_def)
  next
    fix i s s'
    assume h: "0 \<le> i" "i < n" "I i s" "interim_frame a d tc ty tgt letter i s = Inr s'"
    from h(1) have "nat (i + 1) = Suc (nat i)" by simp
    with interim_frame_effect [OF h(4)] h(3) show "I (i + 1) s'"
      by (simp add: I_def)
  qed
  then show ?thesis by (simp add: I_def)
qed

lemma select_stimulus_effect:
  assumes "select_stimulus a tc ok st = Inr (st', tgt, letter)"
  shows "frame_no st' = frame_no st" and "clock_no st' = clock_no st"
    and "trial_stim st' = trial_stim st" and "oddball_name st' = oddball_name st"
    and "trace st' = trace st"
  using assms by (auto simp: select_stimulus_def split: sum.splits)

lemma random_choice_error: "random_choice xs g = Inl e \<Longrightarrow> e = IndexError"
  by (simp add: random_choice_def split: if_splits)

lemma selector_error:
  assumes "determine_attention_stimulus cond idx acc fo nc ac ccc t ds n D cd thr g = Inl e"
  shows "e = IndexError \<and> cond = ''divert''"
proof (cases "cond = ''attend''")
  case True
  with assms show ?thesis
    by (simp add: determine_attention_stimulus_def Let_def split: if_splits prod.splits)
next
  case False
  note na = this
  show ?thesis
  proof (cases "cond = ''divert''")
    case True
    from assms obtain allow where "get_letter allow t ds thr cd (Some (obj_text fo)) g = Inl e"
      unfolding True
      by (simp add: determine_attention_stimulus_def Let_def split: if_splits sum.splits prod.splits)
    then have "e = IndexError"
      unfolding get_letter_def Let_def by (rule random_choice_error)
    with True show ?thesis by simp
  next
    case False
    with na assms show ?thesis by (simp add: determine_attention_stimulus_def Let_def)
  qed
qed

lemma select_stimulus_error:
  "select_stimulus a tc ok st = Inl e \<Longrightarrow> e = IndexError \<and> condition a = ''divert''"
  using selector_error by (fastforce simp: select_stimulus_def split: sum.splits)

lemma select_stimulus_returns:
  "condition a \<noteq> ''divert'' \<Longrightarrow> \<exists>r. select_stimulus a tc ok st = Inr r"
  using select_stimulus_error [of a tc ok st] by (cases "select_stimulus a tc ok st") auto

lemma clock_marker_fields [simp]:
  "frame_no (clock_marker a d i tc ty cv st) = frame_no st"
  "trial_stim (clock_marker a d i tc ty cv st) = trial_stim st"
  "oddball_name (clock_marker a d i tc ty cv st) = oddball_name st"
  "stim_draws (trace (clock_marker a d i tc ty cv st)) = stim_draws (trace st)"
  "i \<noteq> j \<Longrightarrow> sent_bodies j (trace (clock_marker a d i tc ty cv st)) = sent_bodies j (trace st)"
  by (simp_all add: clock_marker_def)

lemma choose_trial_stim_fields [simp]:
  "frame_no (choose_trial_stim a ty st) = frame_no st"
  "stim_draws (trace (choose_trial_stim a ty st)) = stim_draws (trace st)"
  "sent_bodies j (trace (choose_trial_stim a ty st)) = sent_bodies j (trace st)"
  by (simp_all add: choose_trial_stim_def split: prod.splits)

lemma choose_trial_stim_binds:
  assumes "ty = ''s'' \<or> ty = ''o''"
  shows "trial_stim (choose_trial_stim a ty st) \<noteq> None
         \<and> (ty = ''s'' \<or> oddball_name (choose_trial_stim a ty st) \<noteq> None)"
  using assms by (auto simp: choose_trial_stim_def split: prod.splits)

lemma then_do_Inr:
  "then_do r f = Inr y \<Longrightarrow> \<exists>x. r = Inr x \<and> f x = Inr y"
  by (cases r) (simp_all add: then_do_def)

lemma interim_subloop_effect:
  fixes st :: "'a block_state"
  assumes "interim_subloop a d tc ty ok j st = Inr st'"
  shows "frame_no st' = frame_no st + nat (attention_frames a) \<and> clock_no st' = clock_no st
         \<and> trial_stim st' = trial_stim st \<and> oddball_name st' = oddball_name st
         \<and> stim_draws (trace st') = stim_draws (trace st)
         \<and> sent_bodies ''MAIN_STIM_OFFSET'' (trace st')
             = sent_bodies ''MAIN_STIM_OFFSET'' (trace st)"
proof -
  from then_do_Inr [OF assms [unfolded interim_subloop_def]]
  obtain st1 tgt letter where sel: "select_stimulus a tc ok st = Inr (st1, tgt, letter)"
    and fr: "for_each [0 .. attention_frames a - 1] (interim_frame a d tc ty tgt letter) st1
               = Inr st'"
    by auto
  from interim_frames_effect [OF fr] select_stimulus_effect [OF sel]
  show ?thesis by simp
qed

lemma interim_period_effect:
  fixes st :: "'a block_state"
  assumes run: "for_each [0 .. n - 1] (interim_subloop a d tc ty ok) st = Inr st'"
  shows "frame_no st' = frame_no st + nat n * nat (attention_frames a)
         \<and> trial_stim st' = trial_stim st \<and> oddball_name st' = oddball_name st
         \<and> stim_draws (trace st') = stim_draws (trace st)
         \<and> sent_bodies ''MAIN_STIM_OFFSET'' (trace st')
             = sent_bodies ''MAIN_STIM_OFFSET'' (trace st)"
proof -
  define I where "I i s \<longleftrightarrow>
      frame_no s = frame_no st + nat i * nat (attention_frames a)
      \<and> trial_stim s = trial_stim st \<and> oddball_name s = oddball_name st
      \<and> stim_draws (trace s) = stim_draws (trace st)
      \<and> sent_bodies ''MAIN_STIM_OFFSET'' (trace s) = sent_bodies ''MAIN_STIM_OFFSET'' (trace st)"
    for i and s :: "'a block_state"
  have "I (max 0 n) st'"
  proof (rule for_each_upto [where I = I, OF run])
    show "I 0 st" by (simp add: I_def)
  next
    fix i s s'
    assume h: "0 \<le> i" "i < n" "I i s" "interim_subloop a d tc ty ok i s = Inr s'"
    from h(1) have "nat (i + 1) = Suc (nat i)" by simp
    with interim_subloop_effect [OF h(4)] h(3) show "I (i + 1) s'"
      by (simp add: I_def)
  qed
  moreover have "nat (max 0 n) = nat n" by simp
  ultimately show ?thesis by (simp add: I_def)
qed

lemma interim_period_whole:
  fixes st :: "'a block_state"
  assumes run: "interim_period a d tc ty ok st = Inr st'"
  shows "attention_frames a \<noteq> 0"
    and "frame_no st' = frame_no st
           + nat (interim_frames a div attention_frames a) * nat (attention_frames a)"
    and "stim_draws (trace st') = stim_draws (trace st)"
    and "sent_bodies ''MAIN_STIM_OFFSET'' (trace st')
           = sent_bodies ''MAIN_STIM_OFFSET'' (trace st)"
proof -
  from run show nz: "attention_frames a \<noteq> 0"
    by (auto simp: interim_period_def Let_def split: if_splits)
  let ?st6 = "clock_marker a d ''INTERIM_START'' tc ty False st"
  let ?num = "interim_frames a div attention_frames a"
  from run nz have "then_do (for_each [0 .. ?num - 1] (interim_subloop a d tc ty ok) ?st6)
                      (\<lambda>st7. Inr (clock_marker a d ''INTERIM_END'' tc ty False st7)) = Inr st'"
    by (simp add: interim_period_def Let_def)
  from then_do_Inr [OF this] obtain st7 where
    ip: "for_each [0 .. ?num - 1] (interim_subloop a d tc ty ok) ?st6 = Inr st7"
    and fin: "st' = clock_marker a d ''INTERIM_END'' tc ty False st7"
    by auto
  from interim_period_effect [OF ip] fin
  show "frame_no st' = frame_no st + nat ?num * nat (attention_frames a)"
    "stim_draws (trace st') = stim_draws (trace st)"
    "sent_bodies ''MAIN_STIM_OFFSET'' (trace st') = sent_bodies ''MAIN_STIM_OFFSET'' (trace st)"
    by simp_all
qed

text \<open>The frames one trial takes.\<close>

lemma run_trial_effect:
  fixes st :: "'a block_state"
  assumes run: "run_trial a d (tc, ty) st = Inr st'"
  shows "attention_frames a \<noteq> 0"
    and "frame_no st' = frame_no st
           + nat (attention_frames a) * (1 + nat (interim_frames a div attention_frames a))"
    and "map marker (sent_bodies ''MAIN_STIM_OFFSET'' (trace st'))
           = map marker (sent_bodies ''MAIN_STIM_OFFSET'' (trace st))
             @ (if \<not> practice a \<and> 0 \<le> main_stim_frames a
                    \<and> main_stim_frames a < attention_frames a
                then [(trial_ids a tc,
                       Some (flip_time (frames d (frame_no st + nat (main_stim_frames a)))))]
                else [])"
    and "length (stim_draws (trace st'))
           = length (stim_draws (trace st))
             + nat (min (main_stim_frames a) (attention_frames a))"
proof -
  let ?ok = "[1 .. int (length (block a)) - 3]"
  let ?st3 = "choose_trial_stim a ty
                ((clock_marker a d ''TRIALID'' tc ty True st)\<lparr>keypress_times := []\<rparr>)"
  from run have "then_do (select_stimulus a tc ?ok ?st3)
             (\<lambda>(st4, is_att_target, att_letter).
                then_do (stimulus_phase a d tc ty is_att_target att_letter st4)
                  (interim_period a d tc ty ?ok)) = Inr st'"
    by (simp add: run_trial_def Let_def)
  from then_do_Inr [OF this] obtain st4 tgt letter where
    sel: "select_stimulus a tc ?ok ?st3 = Inr (st4, tgt, letter)"
    and rest: "then_do (stimulus_phase a d tc ty tgt letter st4) (interim_period a d tc ty ?ok)
                 = Inr st'"
    by auto
  from then_do_Inr [OF rest] obtain st5 where
    ph: "stimulus_phase a d tc ty tgt letter st4 = Inr st5"
    and ip: "interim_period a d tc ty ?ok st5 = Inr st'"
    by auto
  note s = select_stimulus_effect [OF sel]
  note p = stimulus_phase_effect [OF ph]
  note i = interim_period_whole [OF ip]
  from i(1) show "attention_frames a \<noteq> 0" .
  have f3: "frame_no ?st3 = frame_no st" by simp
  have o3: "sent_bodies ''MAIN_STIM_OFFSET'' (trace ?st3)
              = sent_bodies ''MAIN_STIM_OFFSET'' (trace st)" by simp
  have d3: "stim_draws (trace ?st3) = stim_draws (trace st)" by simp
  from i(2) p(1) s(1) f3
  show "frame_no st' = frame_no st
           + nat (attention_frames a) * (1 + nat (interim_frames a div attention_frames a))"
    by simp
  from i(4) p(5) s(1,5) f3 o3
  show "map marker (sent_bodies ''MAIN_STIM_OFFSET'' (trace st'))
           = map marker (sent_bodies ''MAIN_STIM_OFFSET'' (trace st))
             @ (if \<not> practice a \<and> 0 \<le> main_stim_frames a
                    \<and> main_stim_frames a < attention_frames a
                then [(trial_ids a tc,
                       Some (flip_time (frames d (frame_no st + nat (main_stim_frames a)))))]
                else [])"
    by simp
  from i(3) p(6) s(5) d3
  show "length (stim_draws (trace st'))
           = length (stim_draws (trace st))
             + nat (min (main_stim_frames a) (attention_frames a))"
    by simp
qed

lemma trials_effect:
  fixes st :: "'a block_state"
  assumes run: "for_each ts (run_trial a d) st = Inr st'"
  defines "F \<equiv> nat (attention_frames a) * (1 + nat (interim_frames a div attention_frames a))"
  shows "frame_no st' = frame_no st + length ts * F
         \<and> length (stim_draws (trace st'))
             = length (stim_draws (trace st))
               + length ts * nat (min (main_stim_frames a) (attention_frames a))
         \<and> map marker (sent_bodies ''MAIN_STIM_OFFSET'' (trace st'))
             = map marker (sent_bodies ''MAIN_STIM_OFFSET'' (trace st))
               @ (if \<not> practice a \<and> 0 \<le> main_stim_frames a
                      \<and> main_stim_frames a < attention_frames a
                  then map (\<lambda>j. (trial_ids a (fst (ts ! j)),
                                 Some (flip_time (frames d (frame_no st + j * F
                                                            + nat (main_stim_frames a))))))
                         [0 ..< length ts]
                  else [])"
  using run
proof (induction ts arbitrary: st)
  case Nil
  then show ?case by simp
next
  case (Cons t ts)
  obtain tc ty where t: "t = (tc, ty)" by (cases t)
  from Cons.prems obtain s1 where s1: "run_trial a d (tc, ty) st = Inr s1"
    and rest: "for_each ts (run_trial a d) s1 = Inr st'"
    unfolding t by (cases "run_trial a d (tc, ty) st") simp_all
  note e = run_trial_effect [OF s1]
  from e(2) have f1: "frame_no s1 = frame_no st + F" by (simp add: F_def)
  note ih = Cons.IH [OF rest]
  have shift: "frame_no s1 + j * F + nat (main_stim_frames a)
                 = frame_no st + Suc j * F + nat (main_stim_frames a)" for j
    using f1 by simp
  from ih f1 have "frame_no st' = frame_no st + length (t # ts) * F" by simp
  moreover from ih e(4) have "length (stim_draws (trace st'))
             = length (stim_draws (trace st))
               + length (t # ts) * nat (min (main_stim_frames a) (attention_frames a))"
    by simp
  moreover have "map marker (sent_bodies ''MAIN_STIM_OFFSET'' (trace st'))
             = map marker (sent_bodies ''MAIN_STIM_OFFSET'' (trace st))
               @ (if \<not> practice a \<and> 0 \<le> main_stim_frames a
                      \<and> main_stim_frames a < attention_frames a
                  then map (\<lambda>j. (trial_ids a (fst ((t # ts) ! j)),
                                 Some (flip_time (frames d (frame_no st + j * F
                                                            + nat (main_stim_frames a))))))
                         [0 ..< length (t # ts)]
                  else [])"
  proof (cases "\<not> practice a \<and> 0 \<le> main_stim_frames a \<and> main_stim_frames a < attention_frames a")
    case True
    from ih True e(3) show ?thesis
      by (simp add: t shift map_upt_Suc del: upt_Suc)
  next
    case False
    from ih False e(3) show ?thesis by auto
  qed
  ultimately show ?case by blast
qed

lemma run_block_effect:
  assumes run: "run_block a d f delay g = Inr st"
  defines "F \<equiv> nat (attention_frames a) * (1 + nat (interim_frames a div attention_frames a))"
  shows "frame_no st = length (block a) * F"
    and "length (stim_draws (trace st))
           = length (block a) * nat (min (main_stim_frames a) (attention_frames a))"
    and "map marker (sent_bodies ''MAIN_STIM_OFFSET'' (trace st))
           = (if \<not> practice a \<and> 0 \<le> main_stim_frames a
                  \<and> main_stim_frames a < attention_frames a
              then map (\<lambda>j. (trial_ids a (int j),
                             Some (flip_time (frames d (j * F + nat (main_stim_frames a))))))
                     [0 ..< length (block a)]
              else [])"
proof -
  let ?ts = "zip [0 .. int (length (block a)) - 1] (block a)"
  have len: "length ?ts = length (block a)" by simp
  from run obtain st0 :: "'a block_state" where
    loop: "for_each ?ts (run_trial a d) st0 = Inr st"
    and st0: "frame_no st0 = 0" "sent_bodies ''MAIN_STIM_OFFSET'' (trace st0) = []"
      "stim_draws (trace st0) = []"
    unfolding run_block_def Let_def by (rule that) simp_all
  note e = trials_effect [OF loop, folded F_def]
  from e st0 len show "frame_no st = length (block a) * F" by simp
  from e st0 len show "length (stim_draws (trace st))
           = length (block a) * nat (min (main_stim_frames a) (attention_frames a))"
    by simp
  have same: "map (\<lambda>j. (trial_ids a (fst (?ts ! j)),
                       Some (flip_time (frames d (j * F + nat (main_stim_frames a))))))
                [0 ..< length (block a)]
              = map (\<lambda>j. (trial_ids a (int j),
                       Some (flip_time (frames d (j * F + nat (main_stim_frames a))))))
                [0 ..< length (block a)]"
    by (rule map_cong) (simp_all add: nth_upto)
  from e st0 len
  have "map marker (sent_bodies ''MAIN_STIM_OFFSET'' (trace st))
           = (if \<not> practice a \<and> 0 \<le> main_stim_frames a
                  \<and> main_stim_frames a < attention_frames a
              then map (\<lambda>j. (trial_ids a (fst (?ts ! j)),
                       Some (flip_time (frames d (j * F + nat (main_stim_frames a))))))
                     [0 ..< length (block a)]
              else [])"
    by simp
  then show "map marker (sent_bodies ''MAIN_STIM_OFFSET'' (trace st))
           = (if \<not> practice a \<and> 0 \<le> main_stim_frames a
                  \<and> main_stim_frames a < attention_frames a
              then map (\<lambda>j. (trial_ids a (int j),
                             Some (flip_time (frames d (j * F + nat (main_stim_frames a))))))
                     [0 ..< length (block a)]
              else [])"
    unfolding same .
qed

text \<open>When the runner returns.\<close>

lemma stimulus_phase_returns:
  fixes st :: "'a block_state"
  assumes "trial_stim st \<noteq> None" and "ty = ''s'' \<or> oddball_name st \<noteq> None"
  shows "\<exists>st'. stimulus_phase a d tc ty tgt letter st = Inr st'"
proof -
  define P where "P s \<longleftrightarrow> trial_stim s \<noteq> None \<and> (ty = ''s'' \<or> oddball_name s \<noteq> None)"
    for s :: "'a block_state"
  have "\<exists>st'. for_each [0 .. attention_frames a - 1] (stimulus_frame a d tc ty tgt letter) st
                 = Inr st' \<and> P st'"
  proof (rule for_each_returns)
    show "P st" using assms by (simp add: P_def)
  next
    fix k and s :: "'a block_state"
    assume "P s"
    then have b: "trial_stim s \<noteq> None" "ty = ''s'' \<or> oddball_name s \<noteq> None"
      by (simp_all add: P_def)
    from stimulus_frame_returns [of a k s ty d tc tgt letter] b
    obtain s' where s': "stimulus_frame a d tc ty tgt letter k s = Inr s'" by blast
    from stimulus_frame_effect(3,4) [OF s'] b have "P s'" by (simp add: P_def)
    with s' show "\<exists>s'. stimulus_frame a d tc ty tgt letter k s = Inr s' \<and> P s'" by blast
  qed
  then show ?thesis by (auto simp: stimulus_phase_def)
qed

lemma interim_subloop_returns:
  assumes "condition a \<noteq> ''divert''"
  shows "\<exists>st'. interim_subloop a d tc ty ok j st = Inr st'"
proof -
  from select_stimulus_returns [OF assms] obtain st1 tgt letter where
    sel: "select_stimulus a tc ok st = Inr (st1, tgt, letter)"
    by (metis prod_cases3)
  have "\<exists>st'. for_each [0 .. attention_frames a - 1] (interim_frame a d tc ty tgt letter) st1
                 = Inr st' \<and> True"
    by (rule for_each_returns) (simp_all add: interim_frame_def Let_def)
  with sel show ?thesis by (simp add: interim_subloop_def then_do_def)
qed

lemma interim_period_returns:
  assumes "condition a \<noteq> ''divert''" and "attention_frames a \<noteq> 0"
  shows "\<exists>st'. interim_period a d tc ty ok st = Inr st'"
proof -
  let ?st6 = "clock_marker a d ''INTERIM_START'' tc ty False st"
  have "\<exists>st7. for_each [0 .. interim_frames a div attention_frames a - 1]
                 (interim_subloop a d tc ty ok) ?st6 = Inr st7 \<and> True"
    by (rule for_each_returns) (simp_all add: interim_subloop_returns [OF assms(1)])
  with assms(2) show ?thesis
    by (auto simp: interim_period_def Let_def then_do_def)
qed

lemma run_trial_returns:
  assumes "ty = ''s'' \<or> ty = ''o''" and "condition a \<noteq> ''divert''"
    and "attention_frames a \<noteq> 0"
  shows "\<exists>st'. run_trial a d (tc, ty) st = Inr st'"
proof -
  let ?ok = "[1 .. int (length (block a)) - 3]"
  let ?st3 = "choose_trial_stim a ty
                ((clock_marker a d ''TRIALID'' tc ty True st)\<lparr>keypress_times := []\<rparr>)"
  from select_stimulus_returns [OF assms(2)] obtain st4 tgt letter where
    sel: "select_stimulus a tc ?ok ?st3 = Inr (st4, tgt, letter)"
    by (metis prod_cases3)
  from choose_trial_stim_binds [OF assms(1), of a
      "(clock_marker a d ''TRIALID'' tc ty True st)\<lparr>keypress_times := []\<rparr>"]
    select_stimulus_effect(3,4) [OF sel]
  have "trial_stim st4 \<noteq> None" "ty = ''s'' \<or> oddball_name st4 \<noteq> None" by simp_all
  from stimulus_phase_returns [OF this] obtain st5 where
    ph: "stimulus_phase a d tc ty tgt letter st4 = Inr st5" by blast
  from interim_period_returns [OF assms(2,3)] obtain st' where
    "interim_period a d tc ty ?ok st5 = Inr st'" by blast
  with sel ph show ?thesis
    by (simp add: run_trial_def Let_def then_do_def)
qed

lemma run_block_returns:
  assumes "set (block a) \<subseteq> {''s'', ''o''}" and "condition a \<noteq> ''divert''"
    and "attention_frames a \<noteq> 0"
  shows "\<exists>st. run_block a d f delay g = Inr st"
proof -
  have "\<exists>st'. for_each (zip [0 .. int (length (block a)) - 1] (block a)) (run_trial a d) st0
                 = Inr st' \<and> True" for st0 :: "'a block_state"
  proof (rule for_each_returns)
    fix t and s :: "'a block_state"
    assume "t \<in> set (zip [0 .. int (length (block a)) - 1] (block a))"
    then have "snd t \<in> set (block a)" by (metis prod.collapse set_zip_rightD)
    with assms(1) have "snd t = ''s'' \<or> snd t = ''o''" by auto
    from run_trial_returns [OF this assms(2,3), of d "fst t" s]
    show "\<exists>s'. run_trial a d t s = Inr s' \<and> True" by simp
  qed simp
  then show ?thesis by (simp add: run_block_def Let_def)
qed

text \<open>When the attention chunk has no frames.\<close>

lemma run_trial_zero_frames:
  assumes "attention_frames a = 0"
  shows "run_trial a d (tc, ty) st = Inl ZeroDivisionError
         \<or> condition a = ''divert'' \<and> run_trial a d (tc, ty) st = Inl IndexError"
proof -
  let ?ok = "[1 .. int (length (block a)) - 3]"
  let ?st3 = "choose_trial_stim a ty
                ((clock_marker a d ''TRIALID'' tc ty True st)\<lparr>keypress_times := []\<rparr>)"
  show ?thesis
  proof (cases "select_stimulus a tc ?ok ?st3")
    case (Inl e)
    with select_stimulus_error [OF Inl] show ?thesis
      by (simp add: run_trial_def Let_def then_do_def)
  next
    case (Inr r)
    obtain st4 tgt letter where r: "r = (st4, tgt, letter)" by (cases r)
    have "stimulus_phase a d tc ty tgt letter st4 = Inr st4"
      using assms by (simp add: stimulus_phase_def)
    moreover have "interim_period a d tc ty ?ok st4 = Inl ZeroDivisionError"
      using assms by (simp add: interim_period_def Let_def)
    ultimately show ?thesis using Inr r
      by (simp add: run_trial_def Let_def then_do_def)
  qed
qed

lemma run_block_zero_frames:
  assumes "block a \<noteq> []" and "attention_frames a = 0"
  shows "run_block a d f delay g = Inl ZeroDivisionError
         \<or> condition a = ''divert'' \<and> run_block a d f delay g = Inl IndexError"
proof -
  from assms(1) obtain ty tys where b: "block a = ty # tys" by (cases "block a") auto
  then have "[0 .. int (length (block a)) - 1] = 0 # [1 .. int (length (block a)) - 1]"
    by (simp add: upto_rec1)
  with b have z: "zip [0 .. int (length (block a)) - 1] (block a)
                    = (0, ty) # zip [1 .. int (length (block a)) - 1] tys" by simp
  define st0 :: "'a block_state" where
    "st0 = \<lparr>fixation_obj = f, n_attention_targets = 0, n_attention_responses = 0,
            delay_countdown = delay, keypress_times = [], trial_stim = None,
            oddball_name = None, gen = g, frame_no = 0, clock_no = 0,
            trace = (if \<not> practice a
                     then msg_eyetracker ''BLOCK_START''
                            \<lparr>ids = [session_counter a + 1, block_counter a + 1],
                             stamp = None, attrs = []\<rparr> True False
                     else [])\<rparr>"
  have rb: "run_block a d f delay g
              = (case run_trial a d (0, ty) st0 of
                   Inl e \<Rightarrow> Inl e
                 | Inr st' \<Rightarrow> for_each (zip [1 .. int (length (block a)) - 1] tys)
                               (run_trial a d) st')"
    unfolding run_block_def Let_def z st0_def by simp
  from run_trial_zero_frames [OF assms(2), of d 0 ty st0] show ?thesis
  proof
    assume "run_trial a d (0, ty) st0 = Inl ZeroDivisionError"
    then show ?thesis unfolding rb by simp
  next
    assume "condition a = ''divert'' \<and> run_trial a d (0, ty) st0 = Inl IndexError"
    then show ?thesis unfolding rb by simp
  qed
qed

text \<open>
  Claim C8, amended. A frame of the stimulus phase draws the primary stimulus exactly when
  its index is below \<open>main_stim_frames\<close> and always draws the fixation object; outside
  practice it sends the offset marker exactly when its index equals \<open>main_stim_frames\<close>,
  stamped with the time of its own flip. A trial that is not a practice trial therefore
  sends the offset marker once, from frame \<open>main_stim_frames\<close> of its stimulus phase, when
  \<open>0 \<le> main_stim_frames < attention_frames\<close>, and never otherwise; in practice no offset
  marker is sent. For a block \<^verbatim>\<open>s s s s o\<close> with five attention frames and three stimulus
  frames, outside practice, the stimulus is drawn three times per trial and every trial
  sends one offset marker, stamped by the flip of its frame 3.
\<close>

theorem main_stim_offset_marker:
  "(stimulus_frame a d tc ty tgt letter k st = Inr st1 \<longrightarrow>
      stim_draws (trace st1)
        = stim_draws (trace st) @ (if k < main_stim_frames a then [the (trial_stim st)] else [])
      \<and> fixation_draws (trace st1) = fixation_draws (trace st) @ [fixation_obj st]
      \<and> map marker (sent_bodies ''MAIN_STIM_OFFSET'' (trace st1))
          = map marker (sent_bodies ''MAIN_STIM_OFFSET'' (trace st))
            @ (if \<not> practice a \<and> k = main_stim_frames a
               then [(trial_ids a tc, Some (flip_time (frames d (frame_no st))))] else []))
   \<and> (run_trial a d (tc, ty) st = Inr st2 \<longrightarrow>
        map marker (sent_bodies ''MAIN_STIM_OFFSET'' (trace st2))
          = map marker (sent_bodies ''MAIN_STIM_OFFSET'' (trace st))
            @ (if \<not> practice a \<and> 0 \<le> main_stim_frames a
                   \<and> main_stim_frames a < attention_frames a
               then [(trial_ids a tc,
                      Some (flip_time (frames d (frame_no st + nat (main_stim_frames a)))))]
               else []))
   \<and> (block a = [''s'', ''s'', ''s'', ''s'', ''o''] \<and> attention_frames a = 5
        \<and> main_stim_frames a = 3 \<and> \<not> practice a
        \<and> run_block a d f delay g = Inr st3 \<longrightarrow>
        length (stim_draws (trace st3)) = 5 * 3
        \<and> map marker (sent_bodies ''MAIN_STIM_OFFSET'' (trace st3))
            = map (\<lambda>j. (trial_ids a (int j),
                         Some (flip_time (frames d
                                 (j * (5 * (1 + nat (interim_frames a div 5))) + 3)))))
                [0 ..< 5])"
proof (intro conjI impI)
  assume r: "stimulus_frame a d tc ty tgt letter k st = Inr st1"
  from stimulus_frame_effect(9) [OF r]
  show "stim_draws (trace st1)
        = stim_draws (trace st) @ (if k < main_stim_frames a then [the (trial_stim st)] else [])" .
  from stimulus_frame_effect(10) [OF r]
  show "fixation_draws (trace st1) = fixation_draws (trace st) @ [fixation_obj st]" .
  from stimulus_frame_effect(11) [OF r]
  show "map marker (sent_bodies ''MAIN_STIM_OFFSET'' (trace st1))
          = map marker (sent_bodies ''MAIN_STIM_OFFSET'' (trace st))
            @ (if \<not> practice a \<and> k = main_stim_frames a
               then [(trial_ids a tc, Some (flip_time (frames d (frame_no st))))] else [])" .
next
  assume r: "run_trial a d (tc, ty) st = Inr st2"
  from run_trial_effect(3) [OF r]
  show "map marker (sent_bodies ''MAIN_STIM_OFFSET'' (trace st2))
          = map marker (sent_bodies ''MAIN_STIM_OFFSET'' (trace st))
            @ (if \<not> practice a \<and> 0 \<le> main_stim_frames a
                   \<and> main_stim_frames a < attention_frames a
               then [(trial_ids a tc,
                      Some (flip_time (frames d (frame_no st + nat (main_stim_frames a)))))]
               else [])" .
next
  assume h: "block a = [''s'', ''s'', ''s'', ''s'', ''o''] \<and> attention_frames a = 5
        \<and> main_stim_frames a = 3 \<and> \<not> practice a \<and> run_block a d f delay g = Inr st3"
  then have r: "run_block a d f delay g = Inr st3" by simp
  have five: "length (block a) = 5" using h by simp
  from run_block_effect(2) [OF r] h
  show "length (stim_draws (trace st3)) = 5 * 3" by simp
  from run_block_effect(3) [OF r] h
  show "map marker (sent_bodies ''MAIN_STIM_OFFSET'' (trace st3))
            = map (\<lambda>j. (trial_ids a (int j),
                         Some (flip_time (frames d
                                 (j * (5 * (1 + nat (interim_frames a div 5))) + 3)))))
                [0 ..< 5]"
    unfolding five by simp
qed

lemma upt_five: "[0 ..< 5] = [0, 1, 2, 3, 4]"
  by code_simp

theorem main_stim_offset_marker_witness:
  "\<exists>st. run_block sample_args sample_display sample_fixation 0 sample_rng = Inr st
        \<and> length (stim_draws (trace st)) = 15
        \<and> map marker (sent_bodies ''MAIN_STIM_OFFSET'' (trace st))
            = [([1, 1, 1], Some (3 / 100)), ([1, 1, 2], Some (18 / 100)),
               ([1, 1, 3], Some (33 / 100)), ([1, 1, 4], Some (48 / 100)),
               ([1, 1, 5], Some (63 / 100))]"
proof -
  have "\<exists>st. run_block sample_args sample_display sample_fixation 0 sample_rng = Inr st"
    by (rule run_block_returns) (simp_all add: sample_args_def)
  then obtain st where r: "run_block sample_args sample_display sample_fixation 0 sample_rng = Inr st" ..
  have given: "block sample_args = [''s'', ''s'', ''s'', ''s'', ''o''] \<and> attention_frames sample_args = 5
        \<and> main_stim_frames sample_args = 3 \<and> \<not> practice sample_args
        \<and> run_block sample_args sample_display sample_fixation 0 sample_rng = Inr st"
    using r by (simp add: sample_args_def)
  note m = main_stim_offset_marker [where a = sample_args and d = sample_display
      and f = sample_fixation and delay = 0 and g = sample_rng and ?st3.0 = st,
      THEN conjunct2, THEN conjunct2, rule_format, OF given]
  have per_trial: "5 * (1 + nat (interim_frames sample_args div 5)) = 15"
    by (simp add: sample_args_def)
  have ids: "trial_ids sample_args j = [1, 1, j + 1]" for j
    by (simp add: trial_ids_def sample_args_def)
  have flips: "flip_time (frames sample_display n) = real n / 100" for n
    by (simp add: sample_display_def)
  from m have m1: "length (stim_draws (trace st)) = 15" by simp
  from m have m2: "map marker (sent_bodies ''MAIN_STIM_OFFSET'' (trace st))
            = map (\<lambda>j. (trial_ids sample_args (int j),
                         Some (flip_time (frames sample_display
                                 (j * (5 * (1 + nat (interim_frames sample_args div 5))) + 3)))))
                [0 ..< 5]" by (rule conjunct2)
  have m3: "map marker (sent_bodies ''MAIN_STIM_OFFSET'' (trace st))
            = map (\<lambda>j. ([1, 1, int j + 1], Some (real (j * 15 + 3) / 100))) [0, 1, 2, 3, 4]"
    using m2 unfolding per_trial ids flips upt_five .
  from m1 m3 have "length (stim_draws (trace st)) = 15
        \<and> map marker (sent_bodies ''MAIN_STIM_OFFSET'' (trace st))
            = [([1, 1, 1], Some (3 / 100)), ([1, 1, 2], Some (18 / 100)),
               ([1, 1, 3], Some (33 / 100)), ([1, 1, 4], Some (48 / 100)),
               ([1, 1, 5], Some (63 / 100))]"
    by simp
  with r show ?thesis by (intro exI [of _ st]) simp
qed

text \<open>
  Claim C8 as stated fails. In practice the same block sends no offset marker although
  \<open>main_stim_frames < attention_frames\<close>; so does a negative \<open>main_stim_frames\<close> outside
  practice.
\<close>

theorem main_stim_offset_marker_counterexample:
  "main_stim_frames (sample_args\<lparr>practice := True\<rparr>)
     < attention_frames (sample_args\<lparr>practice := True\<rparr>)
   \<and> map_sum id (\<lambda>st. sent_bodies ''MAIN_STIM_OFFSET'' (trace st))
        (run_block (sample_args\<lparr>practice := True\<rparr>) sample_display sample_fixation 0 sample_rng)
       = Inr []
   \<and> main_stim_frames (sample_args\<lparr>main_stim_frames := - 1\<rparr>)
       < attention_frames (sample_args\<lparr>main_stim_frames := - 1\<rparr>)
   \<and> map_sum id (\<lambda>st. sent_bodies ''MAIN_STIM_OFFSET'' (trace st))
        (run_block (sample_args\<lparr>main_stim_frames := - 1\<rparr>) sample_display sample_fixation 0
           sample_rng)
       = Inr []"
proof -
  have quiet: "map_sum id (\<lambda>st. sent_bodies ''MAIN_STIM_OFFSET'' (trace st))
                 (run_block a sample_display sample_fixation 0 sample_rng) = Inr []"
    if a: "set (block a) \<subseteq> {''s'', ''o''}" "condition a \<noteq> ''divert''" "attention_frames a \<noteq> 0"
      and off: "practice a \<or> main_stim_frames a < 0" for a :: "string block_args"
  proof -
    from run_block_returns [OF a] obtain st where
      r: "run_block a sample_display sample_fixation 0 sample_rng = Inr st" by blast
    from run_block_effect(3) [OF r] off
    have "sent_bodies ''MAIN_STIM_OFFSET'' (trace st) = []" by auto
    with r show ?thesis by simp
  qed
  have "map_sum id (\<lambda>st. sent_bodies ''MAIN_STIM_OFFSET'' (trace st))
        (run_block (sample_args\<lparr>practice := True\<rparr>) sample_display sample_fixation 0 sample_rng)
       = Inr []"
    by (rule quiet) (simp_all add: sample_args_def)
  moreover have "map_sum id (\<lambda>st. sent_bodies ''MAIN_STIM_OFFSET'' (trace st))
        (run_block (sample_args\<lparr>main_stim_frames := - 1\<rparr>) sample_display sample_fixation 0
           sample_rng)
       = Inr []"
    by (rule quiet) (simp_all add: sample_args_def)
  ultimately show ?thesis by (simp add: sample_args_def)
qed

text \<open>
  Claim C10. With no attention frames a block that has a trial never completes: the first
  trial reaches \<^verbatim>\<open>interim_frames // attention_frames\<close> and raises, unless in the divert
  condition the letter choice has already raised. The frame clock gives that zero for a
  rate that is not positive or a negative duration, and never a negative count. With at
  least one attention frame a block of \<^verbatim>\<open>s\<close> and \<^verbatim>\<open>o\<close> trials outside the divert
  condition runs to its end.
\<close>

theorem run_block_needs_attention_frames:
  "(block a \<noteq> [] \<and> attention_frames a = 0 \<longrightarrow>
      run_block a d f delay g = Inl ZeroDivisionError
      \<or> condition a = ''divert'' \<and> run_block a d f delay g = Inl IndexError)
   \<and> (block a \<noteq> [] \<and> (fps \<le> 0 \<or> duration < 0)
        \<and> attention_frames a = get_nearest_frame duration fps \<longrightarrow>
        (\<exists>e. run_block a d f delay g = Inl e))
   \<and> (1 \<le> attention_frames a \<and> set (block a) \<subseteq> {''s'', ''o''}
        \<and> condition a \<noteq> ''divert'' \<longrightarrow>
        (\<exists>st. run_block a d f delay g = Inr st))
   \<and> 0 \<le> get_nearest_frame duration fps"
proof (intro conjI impI)
  show "0 \<le> get_nearest_frame duration fps" by (rule get_nearest_frame_nonneg)
next
  assume "block a \<noteq> [] \<and> attention_frames a = 0"
  then show "run_block a d f delay g = Inl ZeroDivisionError
      \<or> condition a = ''divert'' \<and> run_block a d f delay g = Inl IndexError"
    using run_block_zero_frames by blast
next
  assume h: "block a \<noteq> [] \<and> (fps \<le> 0 \<or> duration < 0)
        \<and> attention_frames a = get_nearest_frame duration fps"
  then have "attention_frames a = 0" by (auto simp: get_nearest_frame_def)
  with h run_block_zero_frames [of a d f delay g]
  show "\<exists>e. run_block a d f delay g = Inl e" by auto
next
  assume "1 \<le> attention_frames a \<and> set (block a) \<subseteq> {''s'', ''o''}
        \<and> condition a \<noteq> ''divert''"
  then show "\<exists>st. run_block a d f delay g = Inr st"
    using run_block_returns [of a d f delay g] by auto
qed

theorem run_block_needs_attention_frames_witness:
  "run_block (sample_args\<lparr>attention_frames := 0\<rparr>) sample_display sample_fixation 0 sample_rng
     = Inl ZeroDivisionError
   \<and> run_block (sample_args\<lparr>attention_frames := get_nearest_frame 0.2 0\<rparr>) sample_display
       sample_fixation 0 sample_rng = Inl ZeroDivisionError
   \<and> (\<exists>st. run_block sample_args sample_display sample_fixation 0 sample_rng = Inr st)"
  using run_block_needs_attention_frames [of "sample_args\<lparr>attention_frames := 0\<rparr>"
      sample_display sample_fixation 0 sample_rng 0 "0.2"]
    run_block_needs_attention_frames [of sample_args sample_display sample_fixation 0
      sample_rng 0 "0.2"]
  by (simp add: sample_args_def get_nearest_frame_def)

text \<open>
  Claim C7 does not hold of \<^verbatim>\<open>run_block\<close>. The escape key takes the branch of every key
  other than the space bar: its time is recorded, an unexpected-key marker is sent outside
  practice, and nothing ends the run. On the sample display, where escape is pressed
  during frame 7, that frame completes and the block runs through all of its 75 frames.
\<close>

theorem escape_handled_as_unexpected_key:
  "handle_key a tc (''escape'', t) st
     = emit (if \<not> practice a
             then msg_eyetracker ''UNEXPECTED_KEY_RESPONSE''
                    \<lparr>ids = trial_ids a tc, stamp = Some t, attrs = [(''Key'', ''escape'')]\<rparr>
                    True False
             else [])
         (st\<lparr>keypress_times := keypress_times st @ [t]\<rparr>)
   \<and> key_events (frames sample_display 7) = [(''escape'', 0.074)]
   \<and> map_sum id (\<lambda>st. (frame_no st, keypress_times st,
                        map marker (sent_bodies ''UNEXPECTED_KEY_RESPONSE'' (trace st))))
        (interim_frame sample_args sample_display 0 ''s'' False [] 2
           (sample_state\<lparr>frame_no := 7\<rparr>))
       = Inr (8, [0.074], [([1, 1, 1], Some 0.074)])
   \<and> map_sum id frame_no
        (run_block sample_args sample_display sample_fixation 0 sample_rng) = Inr 75"
proof -
  have key: "handle_key a tc (''escape'', t) st
     = emit (if \<not> practice a
             then msg_eyetracker ''UNEXPECTED_KEY_RESPONSE''
                    \<lparr>ids = trial_ids a tc, stamp = Some t, attrs = [(''Key'', ''escape'')]\<rparr>
                    True False
             else [])
         (st\<lparr>keypress_times := keypress_times st @ [t]\<rparr>)"
    by (simp add: handle_key_def)
  have pressed: "key_events (frames sample_display 7) = [(''escape'', 0.074)]"
    by (simp add: sample_display_def)
  have frame: "map_sum id (\<lambda>st. (frame_no st, keypress_times st,
                        map marker (sent_bodies ''UNEXPECTED_KEY_RESPONSE'' (trace st))))
        (interim_frame sample_args sample_display 0 ''s'' False [] 2
           (sample_state\<lparr>frame_no := 7\<rparr>))
       = Inr (8, [0.074], [([1, 1, 1], Some 0.074)])"
    by (simp add: interim_frame_def Let_def check_recording_def TRIAL_OK_def handle_keys_def
        handle_key_def emit_def msg_eyetracker_def marker_def trial_ids_def sent_bodies_def
        sample_args_def sample_display_def sample_state_def)
  have "\<exists>st. run_block sample_args sample_display sample_fixation 0 sample_rng = Inr st"
    by (rule run_block_returns) (simp_all add: sample_args_def)
  then obtain st where r: "run_block sample_args sample_display sample_fixation 0 sample_rng = Inr st" ..
  from run_block_effect(1) [OF r] have "frame_no st = 75"
    by (simp add: sample_args_def)
  with r have whole: "map_sum id frame_no
        (run_block sample_args sample_display sample_fixation 0 sample_rng) = Inr 75"
    by simp
  from key pressed frame whole show ?thesis by blast
qed

end
